theory Spec2Isabelle
  imports Main "HOL-Library.Word"
begin

unbundle bit_operations_syntax

section \<open>Bytes, buffers and big-endian integers\<close>

type_synonym byte = "8 word"

text \<open>
  Modelled from the spec: \<open>buffer.Buffer\<close> (package internal/buffer is not under src).
  The spec describes it as a growable byte buffer with big-endian integer helpers,
  cursor-based read and write-back patching at an index. A buffer is modelled by its
  unread bytes: \<open>Len\<close> is their number, \<open>Bytes\<close> the bytes themselves, every write
  appends, \<open>Reset\<close> empties the buffer and \<open>Next n\<close> reads up to \<open>n\<close> bytes from the
  front.
\<close>

type_synonym buffer = "byte list"

definition be16 :: "16 word \<Rightarrow> byte list" where
  "be16 v = [ucast (drop_bit 8 v), ucast v]"

definition be32 :: "32 word \<Rightarrow> byte list" where
  "be32 v = [ucast (drop_bit 24 v), ucast (drop_bit 16 v), ucast (drop_bit 8 v), ucast v]"

definition be64 :: "64 word \<Rightarrow> byte list" where
  "be64 v = [ucast (drop_bit 56 v), ucast (drop_bit 48 v), ucast (drop_bit 40 v),
             ucast (drop_bit 32 v), ucast (drop_bit 24 v), ucast (drop_bit 16 v),
             ucast (drop_bit 8 v), ucast v]"

definition Len :: "buffer \<Rightarrow> nat" where
  "Len wr = length wr"

definition Bytes :: "buffer \<Rightarrow> byte list" where
  "Bytes wr = wr"

definition Reset :: "buffer \<Rightarrow> buffer" where
  "Reset wr = []"

definition Write :: "buffer \<Rightarrow> byte list \<Rightarrow> buffer" where
  "Write wr p = wr @ p"

definition WriteByte :: "buffer \<Rightarrow> byte \<Rightarrow> buffer" where
  "WriteByte wr c = wr @ [c]"

definition WriteString :: "buffer \<Rightarrow> byte list \<Rightarrow> buffer" where
  "WriteString wr s = wr @ s"

definition WriteUint16 :: "buffer \<Rightarrow> 16 word \<Rightarrow> buffer" where
  "WriteUint16 wr n = wr @ be16 n"

definition WriteUint32 :: "buffer \<Rightarrow> 32 word \<Rightarrow> buffer" where
  "WriteUint32 wr n = wr @ be32 n"

definition WriteUint64 :: "buffer \<Rightarrow> 64 word \<Rightarrow> buffer" where
  "WriteUint64 wr n = wr @ be64 n"

text \<open>
  \<open>Next n\<close> hands out the next \<open>n\<close> unread bytes, or all of them when fewer are left,
  and advances the cursor past them. The result is the pair of the bytes read and the
  buffer that remains. It is used with a positive \<open>n\<close> only.
\<close>

definition Next :: "int \<Rightarrow> buffer \<Rightarrow> byte list \<times> buffer" where
  "Next n wr = (take (nat n) wr, drop (nat n) wr)"

text \<open>
  \<open>binary.BigEndian.PutUint32(b[i:], v)\<close> of the Go library overwrites the four bytes
  at positions \<open>i .. i+3\<close>. Go panics when the slice is shorter; every call below
  writes over four bytes that exist (see \<open>PutUint32_append\<close>).
\<close>

definition PutUint32 :: "nat \<Rightarrow> 32 word \<Rightarrow> byte list \<Rightarrow> byte list" where
  "PutUint32 i v b = take i b @ be32 v @ drop (i + 4) b"

section \<open>Format codes\<close>

text \<open>
  Modelled from the spec: the format codes of the AMQP 1.0 type system (the file that
  declares the \<open>typeCode\<close> constants is not under src). The spec's first concrete
  scenario fixes \<open>smallulong = 0x53\<close> and \<open>vbin8 = 0xa0\<close>; the others are the codes of
  the AMQP 1.0 standard the spec refers to.
\<close>

type_synonym amqpType = "8 word"

definition typeCodeNull :: amqpType where "typeCodeNull = 0x40"
definition typeCodeBoolTrue :: amqpType where "typeCodeBoolTrue = 0x41"
definition typeCodeBoolFalse :: amqpType where "typeCodeBoolFalse = 0x42"
definition typeCodeUint0 :: amqpType where "typeCodeUint0 = 0x43"
definition typeCodeUlong0 :: amqpType where "typeCodeUlong0 = 0x44"
definition typeCodeList0 :: amqpType where "typeCodeList0 = 0x45"
definition typeCodeUbyte :: amqpType where "typeCodeUbyte = 0x50"
definition typeCodeByte :: amqpType where "typeCodeByte = 0x51"
definition typeCodeSmallUint :: amqpType where "typeCodeSmallUint = 0x52"
definition typeCodeSmallUlong :: amqpType where "typeCodeSmallUlong = 0x53"
definition typeCodeSmallint :: amqpType where "typeCodeSmallint = 0x54"
definition typeCodeSmalllong :: amqpType where "typeCodeSmalllong = 0x55"
definition typeCodeUshort :: amqpType where "typeCodeUshort = 0x60"
definition typeCodeShort :: amqpType where "typeCodeShort = 0x61"
definition typeCodeUint :: amqpType where "typeCodeUint = 0x70"
definition typeCodeInt :: amqpType where "typeCodeInt = 0x71"
definition typeCodeUlong :: amqpType where "typeCodeUlong = 0x80"
definition typeCodeLong :: amqpType where "typeCodeLong = 0x81"
definition typeCodeVbin8 :: amqpType where "typeCodeVbin8 = 0xa0"
definition typeCodeStr8 :: amqpType where "typeCodeStr8 = 0xa1"
definition typeCodeVbin32 :: amqpType where "typeCodeVbin32 = 0xb0"
definition typeCodeStr32 :: amqpType where "typeCodeStr32 = 0xb1"
definition typeCodeList32 :: amqpType where "typeCodeList32 = 0xd0"

text \<open>Descriptor codes of the performatives used below (section 3 of the spec).\<close>

definition typeCodeDetach :: amqpType where "typeCodeDetach = 0x16"
definition typeCodeEnd :: amqpType where "typeCodeEnd = 0x17"

text \<open>\<open>math.MaxUint32\<close>.\<close>

definition MaxUint32 :: nat where
  "MaxUint32 = 4294967295"

section \<open>Errors\<close>

text \<open>One constructor for each error the modelled code builds or passes on.\<close>

datatype amqp_error =
    ErrInvalidUTF8          \<comment> \<open>"not a valid UTF-8 string"\<close>
  | ErrTooLong              \<comment> \<open>"too long"\<close>
  | ErrNotImplemented       \<comment> \<open>"marshal not implemented for %T"\<close>
  | ErrFrameTooLarge        \<comment> \<open>"frame too large"\<close>
  | ErrDeliveryTagTooLong nat  \<comment> \<open>"delivery tag is over the allowed 32 bytes, len: %v"\<close>
  | ErrMessageTooLarge "64 word"  \<comment> \<open>"encoded message size exceeds max of %d"\<close>
  | ErrRecvSettleMode byte byte   \<comment> \<open>"receiver settlement mode %q requested, received %q from server"\<close>
  | ErrSendSettleMode byte byte   \<comment> \<open>"sender settlement mode %q requested, received %q from server"\<close>
  | ErrUnexpectedAttachResponse   \<comment> \<open>"unexpected attach response: %#v"\<close>
  | ErrUnexpectedFrame            \<comment> \<open>"unexpected frame while waiting for detach: %#v"\<close>
  | ErrDetachNoError              \<comment> \<open>"received detach with no error specified"\<close>
  | ErrNonClosingDetach           \<comment> \<open>LinkError wrapping "non-closing detach not supported"\<close>
  | LinkError "string option"     \<comment> \<open>\<open>&LinkError{RemoteErr: e}\<close>, \<open>None\<close> for the empty LinkError\<close>
  | RemoteError "string option"   \<comment> \<open>an \<open>*Error\<close> received from the peer, by its condition\<close>
  | CtxError string               \<comment> \<open>\<open>ctx.Err()\<close>\<close>
  | Panic                         \<comment> \<open>a run-time panic (nil pointer dereference)\<close>
  | OtherError string             \<comment> \<open>an error made outside the modelled code\<close>

section \<open>UTF-8 validation\<close>

text \<open>
  \<open>utf8.ValidString\<close> of the Go library: a string is valid when it is a sequence of
  well-formed UTF-8 encodings (no overlong forms, no surrogates, nothing above U+10FFFF).
\<close>

definition cont :: "byte \<Rightarrow> bool" where
  "cont b = (0x80 \<le> b \<and> b \<le> 0xBF)"

fun ValidString :: "byte list \<Rightarrow> bool" where
  "ValidString [] = True"
| "ValidString (a # rest) =
     (if a < 0x80 then ValidString rest
      else if 0xC2 \<le> a \<and> a \<le> 0xDF then
        (case rest of b # r \<Rightarrow> cont b \<and> ValidString r | _ \<Rightarrow> False)
      else if 0xE0 \<le> a \<and> a \<le> 0xEF then
        (case rest of
           b # c # r \<Rightarrow>
             (if a = 0xE0 then 0xA0 \<le> b \<and> b \<le> 0xBF
              else if a = 0xED then 0x80 \<le> b \<and> b \<le> 0x9F
              else cont b) \<and> cont c \<and> ValidString r
         | _ \<Rightarrow> False)
      else if 0xF0 \<le> a \<and> a \<le> 0xF4 then
        (case rest of
           b # c # d # r \<Rightarrow>
             (if a = 0xF0 then 0x90 \<le> b \<and> b \<le> 0xBF
              else if a = 0xF4 then 0x80 \<le> b \<and> b \<le> 0x8F
              else cont b) \<and> cont c \<and> cont d \<and> ValidString r
         | _ \<Rightarrow> False)
      else False)"

section \<open>The type codec (encode.go)\<close>

text \<open>
  Every encoder takes the buffer and returns the buffer after its writes, together with
  the error it returns (\<open>None\<close> for \<open>nil\<close>). The buffer is returned in the error case
  too, since bytes written before the error stay in the Go buffer.
\<close>

type_synonym result = "buffer \<times> amqp_error option"

definition writeInt32 :: "buffer \<Rightarrow> 32 word \<Rightarrow> buffer" where
  "writeInt32 wr n =
     (if sint n < 128 \<and> sint n \<ge> -128 then Write wr [typeCodeSmallint, ucast n]
      else WriteUint32 (WriteByte wr typeCodeInt) n)"

definition writeInt64 :: "buffer \<Rightarrow> 64 word \<Rightarrow> buffer" where
  "writeInt64 wr n =
     (if sint n < 128 \<and> sint n \<ge> -128 then Write wr [typeCodeSmalllong, ucast n]
      else WriteUint64 (WriteByte wr typeCodeLong) n)"

definition writeUint32 :: "buffer \<Rightarrow> 32 word \<Rightarrow> buffer" where
  "writeUint32 wr n =
     (if n = 0 then WriteByte wr typeCodeUint0
      else if n < 256 then Write wr [typeCodeSmallUint, ucast n]
      else WriteUint32 (WriteByte wr typeCodeUint) n)"

definition writeUint64 :: "buffer \<Rightarrow> 64 word \<Rightarrow> buffer" where
  "writeUint64 wr n =
     (if n = 0 then WriteByte wr typeCodeUlong0
      else if n < 256 then Write wr [typeCodeSmallUlong, ucast n]
      else WriteUint64 (WriteByte wr typeCodeUlong) n)"

definition writeDescriptor :: "buffer \<Rightarrow> amqpType \<Rightarrow> buffer" where
  "writeDescriptor wr code = Write wr [0x0, typeCodeSmallUlong, code]"

text \<open>A Go string is a sequence of bytes; \<open>len\<close> counts bytes.\<close>

definition writeString :: "buffer \<Rightarrow> byte list \<Rightarrow> result" where
  "writeString wr str =
     (if \<not> ValidString str then (wr, Some ErrInvalidUTF8)
      else let l = length str in
        if l < 256 then
          (WriteString (Write wr [typeCodeStr8, of_nat l]) str, None)
        else if l < MaxUint32 then
          (WriteString (WriteUint32 (WriteByte wr typeCodeStr32) (of_nat l)) str, None)
        else (wr, Some ErrTooLong))"

definition writeBinary :: "buffer \<Rightarrow> byte list \<Rightarrow> result" where
  "writeBinary wr bin =
     (let l = length bin in
        if l < 256 then
          (Write (Write wr [typeCodeVbin8, of_nat l]) bin, None)
        else if l < MaxUint32 then
          (Write (WriteUint32 (WriteByte wr typeCodeVbin32) (of_nat l)) bin, None)
        else (wr, Some ErrTooLong))"


text \<open>
  The values \<open>marshal\<close> dispatches on. The model has the cases of the type switch
  for \<open>nil\<close>, booleans, the unsigned and signed integers, strings, binary, the
  \<open>marshaler\<close> interface and the \<open>default\<close> case. A pointer case of the switch
  writes what the value case writes, so a value stands for both. A marshaler is
  represented by the call of \<open>marshalComposite\<close> that its \<open>marshal\<close> method makes
  (as every performative of frames.go does): the composite's code and its fields.
  Floats, timestamps, maps and arrays are not in the model.
\<close>

datatype val =
    VNil
  | VBool bool
  | VUint8 "8 word"
  | VUint16 "16 word"
  | VUint32 "32 word"
  | VUint64 "64 word"
  | VInt8 "8 word"
  | VInt16 "16 word"
  | VInt32 "32 word"
  | VInt64 "64 word"
  | VString "byte list"
  | VBinary "byte list"
  | VMarshaler amqpType "marshalField list"
  | VUnsupported
and marshalField = MarshalField (fvalue: val) (omit: bool)

text \<open>
  The first loop of \<open>marshalComposite\<close>: \<open>lastSet lastSetIdx i fields\<close> runs
  \<open>for i, f := range fields\<close> from index \<open>i\<close> with the current \<open>lastSetIdx\<close>.
\<close>

fun lastSet :: "int \<Rightarrow> int \<Rightarrow> marshalField list \<Rightarrow> int" where
  "lastSet lastSetIdx i [] = lastSetIdx"
| "lastSet lastSetIdx i (f # fs) =
     (if omit f then lastSet lastSetIdx (i + 1) fs else lastSet i (i + 1) fs)"

text \<open>
  \<open>marshalFields\<close> is the second loop of \<open>marshalComposite\<close>, over the slice
  \<open>fields[:lastSetIdx+1]\<close>; it stops at the first field whose \<open>marshal\<close> fails.
\<close>

function marshal :: "buffer \<Rightarrow> val \<Rightarrow> result"
  and marshalComposite :: "buffer \<Rightarrow> amqpType \<Rightarrow> marshalField list \<Rightarrow> result"
  and marshalFields :: "buffer \<Rightarrow> marshalField list \<Rightarrow> result"
where
  "marshal wr VNil = (WriteByte wr typeCodeNull, None)"
| "marshal wr (VBool t) =
     (if t then (WriteByte wr typeCodeBoolTrue, None)
      else (WriteByte wr typeCodeBoolFalse, None))"
| "marshal wr (VUint64 t) = (writeUint64 wr t, None)"
| "marshal wr (VUint32 t) = (writeUint32 wr t, None)"
| "marshal wr (VUint16 t) = (WriteUint16 (WriteByte wr typeCodeUshort) t, None)"
| "marshal wr (VUint8 t) = (Write wr [typeCodeUbyte, t], None)"
| "marshal wr (VInt8 t) = (Write wr [typeCodeByte, t], None)"
| "marshal wr (VInt16 t) = (WriteUint16 (WriteByte wr typeCodeShort) t, None)"
| "marshal wr (VInt32 t) = (writeInt32 wr t, None)"
| "marshal wr (VInt64 t) = (writeInt64 wr t, None)"
| "marshal wr (VString t) = writeString wr t"
| "marshal wr (VBinary t) = writeBinary wr t"
| "marshal wr (VMarshaler code fields) = marshalComposite wr code fields"
| "marshal wr VUnsupported = (wr, Some ErrNotImplemented)"
| "marshalComposite wr code fields =
     (let lastSetIdx = lastSet (- 1) 0 fields in
      if lastSetIdx = - 1 then
        (Write wr [0x0, typeCodeSmallUlong, code, typeCodeList0], None)
      else
        let wr1 = writeDescriptor wr code;
            wr2 = WriteByte wr1 typeCodeList32;
            sizeIdx = Len wr2;
            wr3 = Write wr2 [0, 0, 0, 0];
            preFieldLen = Len wr3;
            wr4 = WriteUint32 wr3 (of_int (lastSetIdx + 1))
        in case marshalFields wr4 (take (nat (lastSetIdx + 1)) fields) of
             (wr5, Some err) \<Rightarrow> (wr5, Some err)
           | (wr5, None) \<Rightarrow>
               (PutUint32 sizeIdx (of_int (int (Len wr5) - int preFieldLen)) (Bytes wr5),
                None))"
| "marshalFields wr [] = (wr, None)"
| "marshalFields wr (f # fs) =
     (if omit f then marshalFields (WriteByte wr typeCodeNull) fs
      else case marshal wr (fvalue f) of
             (wr', Some err) \<Rightarrow> (wr', Some err)
           | (wr', None) \<Rightarrow> marshalFields wr' fs)"
  by pat_completeness auto
termination
proof -
  have take_le: "2 * size_list size (take n fs) < Suc (2 * size_list size fs)"
    for n and fs :: "marshalField list"
  proof -
    have "size_list size (take n fs) \<le> size_list size fs"
      by (induction fs arbitrary: n) (auto simp: take_Cons')
    then show ?thesis by simp
  qed
  have fvalue_less: "2 * size (fvalue f) < Suc (Suc (2 * size f + k))" for f k
    by (cases f) simp
  show ?thesis
    by (relation "measure (\<lambda>x. case x of
            Inl (wr, v) \<Rightarrow> 2 * size v
          | Inr (Inl (wr, c, fs)) \<Rightarrow> 2 * size_list size fs + 1
          | Inr (Inr (wr, fs)) \<Rightarrow> 2 * size_list size fs)")
       (simp_all add: take_le fvalue_less)
qed




definition performEnd_marshal :: "val option \<Rightarrow> val" where
  "performEnd_marshal err =
     VMarshaler typeCodeEnd
       [MarshalField (case err of None \<Rightarrow> VNil | Some e \<Rightarrow> e) (err = None)]"

text \<open>
  A composite with two binary fields of \<open>2^31\<close> bytes each: its encoding is longer than
  \<open>2^32 - 1\<close> bytes.
\<close>

definition big_fields :: "marshalField list" where
  "big_fields =
     [MarshalField (VBinary (replicate 2147483648 0)) False,
      MarshalField (VBinary (replicate 2147483648 0)) False]"


section \<open>Performatives, links and senders (link.go, sender.go)\<close>

text \<open>
  Modelled from the spec: the settlement modes (their declarations are not under src).
  The spec lists sender-settle-mode as unsettled, settled or mixed and
  receiver-settle-mode as first or second; both are bytes on the wire, numbered in this
  order.
\<close>

type_synonym SenderSettleMode = byte
type_synonym ReceiverSettleMode = byte

definition SenderSettleModeUnsettled :: SenderSettleMode where "SenderSettleModeUnsettled = 0"
definition SenderSettleModeSettled :: SenderSettleMode where "SenderSettleModeSettled = 1"
definition SenderSettleModeMixed :: SenderSettleMode where "SenderSettleModeMixed = 2"
definition ReceiverSettleModeFirst :: ReceiverSettleMode where "ReceiverSettleModeFirst = 0"
definition ReceiverSettleModeSecond :: ReceiverSettleMode where "ReceiverSettleModeSecond = 1"

text \<open>
  Modelled from the spec: \<open>senderSettleModeValue\<close> and \<open>receiverSettleModeValue\<close>
  (their file is not under src) read a settlement mode through its pointer. For a nil
  pointer they give the default of the attach performative, which the type description
  in frames.go documents as \<open>mixed\<close> and \<open>first\<close>.
\<close>

definition senderSettleModeValue :: "SenderSettleMode option \<Rightarrow> SenderSettleMode" where
  "senderSettleModeValue m = (case m of None \<Rightarrow> SenderSettleModeMixed | Some v \<Rightarrow> v)"

definition receiverSettleModeValue :: "ReceiverSettleMode option \<Rightarrow> ReceiverSettleMode" where
  "receiverSettleModeValue m = (case m of None \<Rightarrow> ReceiverSettleModeFirst | Some v \<Rightarrow> v)"

text \<open>
  The performatives, with the fields the modelled code reads or writes. A pointer field
  is an option (\<open>None\<close> for nil); a terminus (source or target) is given by its
  address; a nil byte slice is the empty list; a channel field says whether the channel
  was made.
\<close>

datatype DeliveryState = StateAccepted | StateRejected "string option" | StateOther

record PerformAttach =
  att_Handle :: "32 word"
  att_RoleReceiver :: bool
  att_ReceiverSettleMode :: "ReceiverSettleMode option"
  att_SenderSettleMode :: "SenderSettleMode option"
  att_MaxMessageSize :: "64 word"
  att_Source :: "string option"
  att_Target :: "string option"
  att_TargetDynamic :: bool

record PerformFlow =
  flow_Handle :: "32 word option"
  flow_DeliveryCount :: "32 word option"
  flow_LinkCredit :: "32 word option"
  flow_Echo :: bool

record PerformDisposition =
  disp_RoleReceiver :: bool
  disp_First :: "32 word"
  disp_Last :: "32 word option"
  disp_Settled :: bool
  disp_State :: "DeliveryState option"

record PerformDetach =
  det_Handle :: "32 word"
  det_Closed :: bool
  det_Error :: "string option"

record PerformTransfer =
  Handle :: "32 word"
  DeliveryID :: "32 word option"
  DeliveryTag :: "byte list"
  MessageFormat :: "32 word option"
  Settled :: bool
  More :: bool
  Payload :: "byte list"
  Done :: bool

datatype FrameBody =
    Attach PerformAttach
  | Flow PerformFlow
  | Disposition PerformDisposition
  | Detach PerformDetach
  | Transfer PerformTransfer
  | OtherFrame

text \<open>
  The link. \<open>l_done\<close> says whether the channel \<open>done\<close> is closed;
  \<open>peerMaxFrameSize\<close> is \<open>l.session.conn.peerMaxFrameSize\<close>; \<open>session_tx\<close> collects the
  frames handed to \<open>l.session.txFrame\<close>, in order.
\<close>

record link =
  handle :: "32 word"
  dynamicAddr :: bool
  l_done :: bool
  doneErr :: "amqp_error option"
  peerMaxFrameSize :: "32 word"
  session_tx :: "FrameBody list"
  source :: "string option"
  target :: "string option"
  deliveryCount :: "32 word"
  senderSettleMode :: "SenderSettleMode option"
  receiverSettleMode :: "ReceiverSettleMode option"
  maxMessageSize :: "64 word"
  detachReceived :: bool

definition setSettleModes :: "link \<Rightarrow> PerformAttach \<Rightarrow> link \<times> amqp_error option" where
  "setSettleModes l0 resp =
     (let localRecvSettle = receiverSettleModeValue (receiverSettleMode l0);
          respRecvSettle = receiverSettleModeValue (att_ReceiverSettleMode resp)
      in if receiverSettleMode l0 \<noteq> None \<and> localRecvSettle \<noteq> respRecvSettle then
           (l0, Some (ErrRecvSettleMode localRecvSettle respRecvSettle))
         else
           let l1 = l0\<lparr>receiverSettleMode := Some respRecvSettle\<rparr>;
               localSendSettle = senderSettleModeValue (senderSettleMode l1);
               respSendSettle = senderSettleModeValue (att_SenderSettleMode resp)
           in if senderSettleMode l1 \<noteq> None \<and> localSendSettle \<noteq> respSendSettle then
                (l1, Some (ErrSendSettleMode localSendSettle respSendSettle))
              else (l1\<lparr>senderSettleMode := Some respSendSettle\<rparr>, None))"

text \<open>
  What \<open>waitForFrame\<close> can return: a context error, another error (the session's), or
  a frame.
\<close>

datatype wait_result = WaitCtxErr amqp_error | WaitErr amqp_error | WaitFrame FrameBody

text \<open>
  \<open>link.attach\<close>. The source passes \<open>beforeAttach\<close> and \<open>afterAttach\<close> as functions;
  \<open>afterAttach\<close> updates the link through its closure, so here it maps the link.
  \<open>allocateHandle\<close> is the outcome of \<open>session.allocateHandle\<close> (not under src): an error
  or the handle it stores in the link. \<open>rx k\<close> is what the \<open>k\<close>-th call of
  \<open>waitForFrame\<close> returns. \<open>muxClose\<close> stands for the effect of \<open>l.muxClose\<close> on the
  link when the settlement modes are refused; the clean-up goroutines started after a
  context error run later and are left out.
\<close>

definition attach ::
  "(amqp_error + 32 word) \<Rightarrow> (PerformAttach \<Rightarrow> PerformAttach) \<Rightarrow>
   (link \<Rightarrow> PerformAttach \<Rightarrow> link) \<Rightarrow> (link \<Rightarrow> link) \<Rightarrow> (nat \<Rightarrow> wait_result) \<Rightarrow>
   link \<Rightarrow> link \<times> amqp_error option" where
  "attach allocateHandle beforeAttach afterAttach muxClose rx l0 =
     (case allocateHandle of
        Inl err \<Rightarrow> (l0, Some err)
      | Inr h \<Rightarrow>
         (let l1 = l0\<lparr>handle := h\<rparr>;
              att = beforeAttach
                \<lparr>att_Handle = handle l1,
                 att_RoleReceiver = False,
                 att_ReceiverSettleMode = receiverSettleMode l1,
                 att_SenderSettleMode = senderSettleMode l1,
                 att_MaxMessageSize = maxMessageSize l1,
                 att_Source = source l1,
                 att_Target = target l1,
                 att_TargetDynamic = False\<rparr>;
              l2 = l1\<lparr>session_tx := session_tx l1 @ [Attach att]\<rparr>
          in case rx 0 of
               WaitCtxErr err \<Rightarrow> (l2, Some err)
             | WaitErr err \<Rightarrow> (l2, Some err)
             | WaitFrame (Attach resp) \<Rightarrow>
                (if att_Source resp = None \<and> att_Target resp = None then
                   (case rx 1 of
                      WaitCtxErr err \<Rightarrow> (l2, Some err)
                    | WaitErr err \<Rightarrow> (l2, Some err)
                    | WaitFrame (Detach detach) \<Rightarrow>
                       (let l3 = l2\<lparr>session_tx := session_tx l2 @
                                  [Detach \<lparr>det_Handle = handle l2, det_Closed = True,
                                           det_Error = None\<rparr>]\<rparr>
                        in if det_Error detach = None then (l3, Some ErrDetachNoError)
                           else (l3, Some (RemoteError (det_Error detach))))
                    | WaitFrame _ \<Rightarrow> (l2, Some ErrUnexpectedFrame))
                 else
                   let l3 = (if maxMessageSize l2 = 0 \<or>
                                att_MaxMessageSize resp < maxMessageSize l2
                             then l2\<lparr>maxMessageSize := att_MaxMessageSize resp\<rparr> else l2);
                       l4 = afterAttach l3 resp
                   in (case setSettleModes l4 resp of
                         (l5, Some err) \<Rightarrow> (muxClose l5, Some err)
                       | (l5, None) \<Rightarrow> (l5, None)))
             | WaitFrame _ \<Rightarrow> (l2, Some ErrUnexpectedAttachResponse)))"

definition link_muxHandleFrame :: "link \<Rightarrow> FrameBody \<Rightarrow> link \<times> amqp_error option" where
  "link_muxHandleFrame l0 fr =
     (case fr of
        Detach d \<Rightarrow>
          if \<not> det_Closed d then (l0, Some ErrNonClosingDetach)
          else let l1 = l0\<lparr>detachReceived := True\<rparr>
               in if det_Error d \<noteq> None then (l1, Some (LinkError (det_Error d)))
                  else (l1, Some (LinkError None))
      | _ \<Rightarrow> (l0, None))"

text \<open>
  The message, as far as \<open>send\<close> reads it, with its data sections. \<open>Message.Marshal\<close>
  is not under src: \<open>send\<close> takes it as the parameter \<open>Marshal\<close>.
\<close>

record Message =
  msg_DeliveryTag :: "byte list"
  msg_Format :: "32 word"
  msg_SendSettled :: bool
  msg_Data :: "byte list list"

text \<open>
  The sender. \<open>s_l\<close> is the field \<open>l\<close>; \<open>transfers\<close> holds the transfer frames that
  \<open>send\<close> has put on the channel \<open>s.transfers\<close>, in order.
\<close>

record Sender =
  s_l :: link
  transfers :: "PerformTransfer list"
  closeOnDispositionError :: bool
  buf :: buffer
  nextDeliveryTag :: "64 word"
  availableCredit :: "32 word"

definition maxDeliveryTagLength :: nat where
  "maxDeliveryTagLength = 32"

definition maxTransferFrameHeader :: int where
  "maxTransferFrameHeader = 66"

text \<open>
  Modelled from the spec: \<open>needsDeliveryID\<close> (declared outside src) is the placeholder
  the first transfer points to until the session assigns the delivery-id.
\<close>

definition needsDeliveryID :: "32 word" where
  "needsDeliveryID = 0"

text \<open>
  The cases of the \<open>select\<close> inside the loop of \<open>send\<close>: the frame went onto
  \<open>s.transfers\<close>, the link was done (with the \<open>doneErr\<close> read then), or the context
  was done (with \<open>ctx.Err()\<close>).
\<close>

datatype select_outcome = Enqueued | LinkDone "amqp_error option" | CtxDone amqp_error

text \<open>
  The loop \<open>for fr.More\<close> of \<open>send\<close>. \<open>env k\<close> is the outcome of the \<open>select\<close> in
  round \<open>k\<close>. The result is the sender afterwards, whether the returned channel is
  non-nil, and the returned error. With a chunk size that is not positive the Go loop
  does not come to an end with a result (\<open>Next\<close> cannot advance the cursor): the model
  returns \<open>None\<close> there.
\<close>

function send_loop ::
  "int \<Rightarrow> bool \<Rightarrow> (nat \<Rightarrow> select_outcome) \<Rightarrow> nat \<Rightarrow> Sender \<Rightarrow> PerformTransfer \<Rightarrow>
   (Sender \<times> bool \<times> amqp_error option) option" where
  "send_loop maxPayloadSize senderSettled env k s fr =
     (if \<not> More fr then Some (s, Done fr, None)
      else if maxPayloadSize \<le> 0 then None
      else
        let chunk = fst (Next maxPayloadSize (buf s));
            s1 = s\<lparr>buf := snd (Next maxPayloadSize (buf s))\<rparr>;
            fr1 = fr\<lparr>Payload := chunk, More := Len (buf s1) > 0\<rparr>;
            fr2 = (if \<not> More fr1 then fr1\<lparr>Settled := senderSettled, Done := True\<rparr> else fr1)
        in case env k of
             Enqueued \<Rightarrow>
               send_loop maxPayloadSize senderSettled env (Suc k)
                 (s1\<lparr>transfers := transfers s1 @ [fr2]\<rparr>)
                 (fr2\<lparr>DeliveryID := None, DeliveryTag := [], MessageFormat := None\<rparr>)
           | LinkDone err \<Rightarrow> Some (s1, False, err)
           | CtxDone err \<Rightarrow> Some (s1, False, Some err))"
  by pat_completeness auto
termination
  by (relation "measure (\<lambda>(maxPayloadSize, senderSettled, env, k, s, fr).
                  if More fr then Suc (length (buf s)) else 0)")
     (auto simp: Next_def Len_def)

text \<open>
  \<open>send\<close>. The length of the buffer is a non-negative \<open>int\<close>, so its conversion to
  \<open>uint64\<close> for the comparison with \<open>maxMessageSize\<close> keeps its value; the chunk size
  \<open>int64(peerMaxFrameSize) - 66\<close> is a signed number and may be negative.
\<close>

definition send ::
  "(Message \<Rightarrow> buffer \<Rightarrow> result) \<Rightarrow> (nat \<Rightarrow> select_outcome) \<Rightarrow> Sender \<Rightarrow> Message \<Rightarrow>
   (Sender \<times> bool \<times> amqp_error option) option" where
  "send Marshal env s0 msg =
     (if length (msg_DeliveryTag msg) > maxDeliveryTagLength then
        Some (s0, False, Some (ErrDeliveryTagTooLong (length (msg_DeliveryTag msg))))
      else
        let s1 = s0\<lparr>buf := fst (Marshal msg (Reset (buf s0)))\<rparr>;
            err = snd (Marshal msg (Reset (buf s0)))
        in if err \<noteq> None then Some (s1, False, err)
           else if maxMessageSize (s_l s1) \<noteq> 0 \<and>
                   int (Len (buf s1)) > uint (maxMessageSize (s_l s1)) then
             Some (s1, False, Some (ErrMessageTooLarge (maxMessageSize (s_l s1))))
           else
             let maxPayloadSize = uint (peerMaxFrameSize (s_l s1)) - maxTransferFrameHeader;
                 sndSettleMode = senderSettleMode (s_l s1);
                 senderSettled =
                   (sndSettleMode \<noteq> None \<and>
                    (the sndSettleMode = SenderSettleModeSettled \<or>
                     (the sndSettleMode = SenderSettleModeMixed \<and> msg_SendSettled msg)));
                 deliveryTag =
                   (if length (msg_DeliveryTag msg) = 0 then be64 (nextDeliveryTag s1)
                    else msg_DeliveryTag msg);
                 s2 = (if length (msg_DeliveryTag msg) = 0
                       then s1\<lparr>nextDeliveryTag := nextDeliveryTag s1 + 1\<rparr> else s1);
                 fr = \<lparr>Handle = handle (s_l s2),
                       DeliveryID = Some needsDeliveryID,
                       DeliveryTag = deliveryTag,
                       MessageFormat = Some (msg_Format msg),
                       Settled = False,
                       More = Len (buf s2) > 0,
                       Payload = [],
                       Done = False\<rparr>
             in send_loop maxPayloadSize senderSettled env 0 s2 fr)"

definition detachOnRejectDisp :: "Sender \<Rightarrow> bool" where
  "detachOnRejectDisp s =
     (if closeOnDispositionError s \<and>
         (receiverSettleMode (s_l s) = None \<or>
          receiverSettleMode (s_l s) = Some ReceiverSettleModeFirst)
      then True else False)"

text \<open>
  \<open>Sender.attach\<close> with its two callbacks, which read and update the sender's link. On
  success it makes the channel \<open>s.transfers\<close> and starts the mux.
\<close>

definition Sender_beforeAttach :: "link \<Rightarrow> PerformAttach \<Rightarrow> PerformAttach" where
  "Sender_beforeAttach l0 pa =
     pa\<lparr>att_RoleReceiver := False,
        att_Target := (if att_Target pa = None then Some [] else att_Target pa),
        att_TargetDynamic := dynamicAddr l0\<rparr>"

definition Sender_afterAttach :: "link \<Rightarrow> PerformAttach \<Rightarrow> link" where
  "Sender_afterAttach l0 pa =
     (let l1 = (if target l0 = None then l0\<lparr>target := Some []\<rparr> else l0)
      in if dynamicAddr l1 \<and> att_Target pa \<noteq> None then l1\<lparr>target := att_Target pa\<rparr>
         else l1)"

definition Sender_attach ::
  "(amqp_error + 32 word) \<Rightarrow> (link \<Rightarrow> link) \<Rightarrow> (nat \<Rightarrow> wait_result) \<Rightarrow> Sender \<Rightarrow>
   Sender \<times> amqp_error option" where
  "Sender_attach allocateHandle muxClose rx s0 =
     (case attach allocateHandle (Sender_beforeAttach (s_l s0)) Sender_afterAttach muxClose rx
             (s_l s0) of
        (l1, Some err) \<Rightarrow> (s0\<lparr>s_l := l1\<rparr>, Some err)
      | (l1, None) \<Rightarrow> (s0\<lparr>s_l := l1, transfers := []\<rparr>, None))"

text \<open>
  The cases of the second \<open>select\<close> of \<open>Send\<close>: a delivery state arrived on the
  channel \<open>send\<close> returned, the link was done, or the context was done.
\<close>

datatype confirm_outcome =
  StateArrived DeliveryState | ConfirmLinkDone "amqp_error option" | ConfirmCtxDone amqp_error

text \<open>
  \<open>Send\<close>. The first \<open>select\<close> has a default case, so it takes the case of \<open>done\<close>
  exactly when that channel is closed. A nil channel never delivers: when \<open>send\<close>
  returned no channel, the case \<open>StateArrived\<close> cannot be taken and the model has no
  result for it.
\<close>

definition Send ::
  "(Message \<Rightarrow> buffer \<Rightarrow> result) \<Rightarrow> (nat \<Rightarrow> select_outcome) \<Rightarrow> confirm_outcome \<Rightarrow>
   Sender \<Rightarrow> Message \<Rightarrow> (Sender \<times> amqp_error option) option" where
  "Send Marshal env confirm s0 msg =
     (if l_done (s_l s0) then Some (s0, doneErr (s_l s0))
      else
        case send Marshal env s0 msg of
          None \<Rightarrow> None
        | Some (s1, ch, Some err) \<Rightarrow> Some (s1, Some err)
        | Some (s1, ch, None) \<Rightarrow>
            (case confirm of
               StateArrived state \<Rightarrow>
                 if \<not> ch then None
                 else (case state of
                         StateRejected e \<Rightarrow>
                           if detachOnRejectDisp s1 then Some (s1, Some (LinkError e))
                           else Some (s1, Some (RemoteError e))
                       | _ \<Rightarrow> Some (s1, None))
             | ConfirmLinkDone err \<Rightarrow> Some (s1, err)
             | ConfirmCtxDone err \<Rightarrow> Some (s1, Some err)))"

text \<open>
  \<open>Sender.muxHandleFrame\<close>: the sender afterwards, the disposition to send, and the
  error. A flow frame without link-credit makes the Go code dereference a nil pointer.
\<close>

definition muxHandleFrame ::
  "Sender \<Rightarrow> FrameBody \<Rightarrow> Sender \<times> PerformDisposition option \<times> amqp_error option" where
  "muxHandleFrame s0 fr =
     (case fr of
        Flow f \<Rightarrow>
          (case flow_LinkCredit f of
             None \<Rightarrow> (s0, None, Some Panic)
           | Some lc \<Rightarrow>
               let linkCredit0 = lc - deliveryCount (s_l s0);
                   linkCredit = (case flow_DeliveryCount f of
                                   Some dc \<Rightarrow> linkCredit0 + dc
                                 | None \<Rightarrow> linkCredit0);
                   s1 = s0\<lparr>availableCredit := linkCredit\<rparr>
               in if \<not> flow_Echo f then (s1, None, None)
                  else
                    let deliveryCount' = deliveryCount (s_l s1);
                        resp = \<lparr>flow_Handle = Some (handle (s_l s1)),
                                flow_DeliveryCount = Some deliveryCount',
                                flow_LinkCredit = Some linkCredit,
                                flow_Echo = False\<rparr>
                    in (s1\<lparr>s_l := (s_l s1)\<lparr>session_tx := session_tx (s_l s1) @ [Flow resp]\<rparr>\<rparr>,
                        None, None))
      | Disposition d \<Rightarrow>
          (case disp_State d of
             Some (StateRejected e) \<Rightarrow>
               if detachOnRejectDisp s0 then (s0, None, Some (LinkError e))
               else if disp_Settled d then (s0, None, None)
               else (s0, Some \<lparr>disp_RoleReceiver = False, disp_First = disp_First d,
                                disp_Last = disp_Last d, disp_Settled = True,
                                disp_State = None\<rparr>, None)
           | _ \<Rightarrow>
               if disp_Settled d then (s0, None, None)
               else (s0, Some \<lparr>disp_RoleReceiver = False, disp_First = disp_First d,
                                disp_Last = disp_Last d, disp_Settled = True,
                                disp_State = None\<rparr>, None))
      | _ \<Rightarrow>
          (case link_muxHandleFrame (s_l s0) fr of
             (l1, err) \<Rightarrow> (s0\<lparr>s_l := l1\<rparr>, None, err)))"

text \<open>
  Modelled from the spec: \<open>Message.Marshal\<close> (not under src) for a message that has data
  sections only. The first concrete scenario of the spec gives the encoding of a data
  section: the bytes 0x00, 0x53, 0x75, then the payload as a binary value.
\<close>

fun marshalData :: "buffer \<Rightarrow> byte list list \<Rightarrow> result" where
  "marshalData wr [] = (wr, None)"
| "marshalData wr (d # ds) =
     (case writeBinary (Write wr [0x0, typeCodeSmallUlong, 0x75]) d of
        (wr', Some err) \<Rightarrow> (wr', Some err)
      | (wr', None) \<Rightarrow> marshalData wr' ds)"

definition Message_Marshal :: "Message \<Rightarrow> buffer \<Rightarrow> result" where
  "Message_Marshal msg wr = marshalData wr (msg_Data msg)"

text \<open>
  The setting of the sender tests: a link attached with sender-settle-mode unsettled and
  receiver-settle-mode first, a sender on it with 100 credits, a message made by
  \<open>NewMessage\<close> from one data section, and a \<open>select\<close> that always takes the case of
  the channel \<open>s.transfers\<close>.
\<close>

definition all_enqueued :: "nat \<Rightarrow> select_outcome" where
  "all_enqueued k = Enqueued"

definition test_link :: "32 word \<Rightarrow> link" where
  "test_link pmfs =
     \<lparr>handle = 0, dynamicAddr = False, l_done = False, doneErr = None,
      peerMaxFrameSize = pmfs, session_tx = [], source = None, target = Some ''test'',
      deliveryCount = 0, senderSettleMode = Some SenderSettleModeUnsettled,
      receiverSettleMode = Some ReceiverSettleModeFirst, maxMessageSize = 0,
      detachReceived = False\<rparr>"

definition test_sender :: "32 word \<Rightarrow> Sender" where
  "test_sender pmfs =
     \<lparr>s_l = test_link pmfs, transfers = [], closeOnDispositionError = True, buf = [],
      nextDeliveryTag = 0, availableCredit = 100\<rparr>"

definition NewMessage :: "byte list \<Rightarrow> Message" where
  "NewMessage payload =
     \<lparr>msg_DeliveryTag = [], msg_Format = 0, msg_SendSettled = False, msg_Data = [payload]\<rparr>"

text \<open>
  The attach frame the mock peer of the sender tests answers with (a target \<open>test\<close>, a
  sender-settle-mode and a max-message-size), a peer that answers every wait with one
  attach frame, and a \<open>select\<close> that always finds the link closed by the caller.
\<close>

definition SenderAttach :: "SenderSettleMode \<Rightarrow> 64 word \<Rightarrow> PerformAttach" where
  "SenderAttach mode maxSize =
     \<lparr>att_Handle = 0, att_RoleReceiver = True, att_ReceiverSettleMode = None,
      att_SenderSettleMode = Some mode, att_MaxMessageSize = maxSize, att_Source = None,
      att_Target = Some ''test'', att_TargetDynamic = False\<rparr>"

definition link_lost :: "nat \<Rightarrow> select_outcome" where
  "link_lost k = LinkDone (Some (LinkError None))"

definition rx_attach :: "PerformAttach \<Rightarrow> nat \<Rightarrow> wait_result" where
  "rx_attach resp k = WaitFrame (Attach resp)"

section \<open>Notions the properties are stated with\<close>

text \<open>
  What \<open>marshal\<close> appends to a buffer for a value, and the error it returns. Both are
  read off a run on the empty buffer; \<open>marshal_appends\<close> shows that a run on any
  buffer appends the same bytes and returns the same error.
\<close>

definition encoded :: "val \<Rightarrow> byte list" where
  "encoded v = fst (marshal [] v)"

definition marshal_error :: "val \<Rightarrow> amqp_error option" where
  "marshal_error v = snd (marshal [] v)"

text \<open>The same for a field of a composite: an omitted field is written as null.\<close>

definition field_bytes :: "marshalField \<Rightarrow> byte list" where
  "field_bytes f = (if omit f then [typeCodeNull] else encoded (fvalue f))"

definition field_error :: "marshalField \<Rightarrow> amqp_error option" where
  "field_error f = (if omit f then None else marshal_error (fvalue f))"

text \<open>
  For a list of fields written one after the other, up to and with the first field
  that fails: the bytes written and the error of that field.
\<close>

fun fields_bytes :: "marshalField list \<Rightarrow> byte list" where
  "fields_bytes [] = []"
| "fields_bytes (f # fs) =
     (if field_error f = None then field_bytes f @ fields_bytes fs else field_bytes f)"

fun fields_error :: "marshalField list \<Rightarrow> amqp_error option" where
  "fields_error [] = None"
| "fields_error (f # fs) =
     (if field_error f = None then fields_error fs else field_error f)"

definition appends :: "val \<Rightarrow> bool" where
  "appends v = (\<forall>wr. marshal wr v = (wr @ encoded v, marshal_error v))"

text \<open>
  The pieces \<open>send\<close> is made of: whether the sender settles the delivery, the first
  transfer frame and the test against the link's max-message-size.
\<close>

definition senderSettled_of :: "Sender \<Rightarrow> Message \<Rightarrow> bool" where
  "senderSettled_of s0 msg =
     (senderSettleMode (s_l s0) \<noteq> None \<and>
      (the (senderSettleMode (s_l s0)) = SenderSettleModeSettled \<or>
       (the (senderSettleMode (s_l s0)) = SenderSettleModeMixed \<and> msg_SendSettled msg)))"

definition first_transfer :: "Sender \<Rightarrow> Message \<Rightarrow> byte list \<Rightarrow> PerformTransfer" where
  "first_transfer s0 msg b =
     \<lparr>Handle = handle (s_l s0),
      DeliveryID = Some needsDeliveryID,
      DeliveryTag = (if msg_DeliveryTag msg = [] then be64 (nextDeliveryTag s0)
                     else msg_DeliveryTag msg),
      MessageFormat = Some (msg_Format msg),
      Settled = False,
      More = (b \<noteq> []),
      Payload = [],
      Done = False\<rparr>"

definition too_large :: "Sender \<Rightarrow> byte list \<Rightarrow> bool" where
  "too_large s0 b =
     (maxMessageSize (s_l s0) \<noteq> 0 \<and> length b > unat (maxMessageSize (s_l s0)))"

text \<open>
  \<open>chunked n fr b frs\<close>: the frames \<open>frs\<close> carry the bytes \<open>b\<close> in successive chunks of
  at most \<open>n\<close> bytes, each but the last of exactly \<open>n\<close> bytes, with \<open>More\<close> set on
  each but the last, and with the delivery-id, delivery-tag and message-format of \<open>fr\<close>
  on the first frame and none on the others. \<open>chunk_count n b\<close> is the number of
  frames.
\<close>

definition chunked :: "nat \<Rightarrow> PerformTransfer \<Rightarrow> byte list \<Rightarrow> PerformTransfer list \<Rightarrow> bool" where
  "chunked n fr b frs =
     (frs \<noteq> [] \<and> concat (map Payload frs) = b \<and>
      (\<forall>i < length frs.
         (b \<noteq> [] \<longrightarrow> Payload (frs ! i) \<noteq> []) \<and>
         length (Payload (frs ! i)) \<le> n \<and>
         (Suc i < length frs \<longrightarrow> length (Payload (frs ! i)) = n) \<and>
         More (frs ! i) = (Suc i < length frs) \<and>
         DeliveryID (frs ! i) = (if i = 0 then DeliveryID fr else None) \<and>
         DeliveryTag (frs ! i) = (if i = 0 then DeliveryTag fr else []) \<and>
         MessageFormat (frs ! i) = (if i = 0 then MessageFormat fr else None)))"

definition chunk_count :: "nat \<Rightarrow> byte list \<Rightarrow> nat" where
  "chunk_count n b = (if b = [] then 1 else (length b + n - 1) div n)"

section \<open>Properties of the codec\<close>

lemmas buffer_defs = Len_def Bytes_def Reset_def Write_def WriteByte_def WriteString_def
  WriteUint16_def WriteUint32_def WriteUint64_def

lemmas typeCode_defs = typeCodeNull_def typeCodeBoolTrue_def typeCodeBoolFalse_def
  typeCodeUint0_def typeCodeUlong0_def typeCodeList0_def typeCodeUbyte_def typeCodeByte_def
  typeCodeSmallUint_def typeCodeSmallUlong_def typeCodeSmallint_def typeCodeSmalllong_def
  typeCodeUshort_def typeCodeShort_def typeCodeUint_def typeCodeInt_def typeCodeUlong_def
  typeCodeLong_def typeCodeVbin8_def typeCodeStr8_def typeCodeVbin32_def typeCodeStr32_def
  typeCodeList32_def typeCodeDetach_def typeCodeEnd_def

declare marshalComposite.simps [simp del]

declare send_loop.simps [simp del]

lemma length_be32 [simp]: "length (be32 v) = 4"
  by (simp add: be32_def)

lemma PutUint32_append:
  "length z = 4 \<Longrightarrow> PutUint32 (length p) v (p @ z @ r) = p @ be32 v @ r"
  by (simp add: PutUint32_def)

lemma writeString_append:
  "writeString wr str = (wr @ fst (writeString [] str), snd (writeString [] str))"
  by (simp add: writeString_def buffer_defs Let_def)

lemma writeBinary_append:
  "writeBinary wr bin = (wr @ fst (writeBinary [] bin), snd (writeBinary [] bin))"
  by (simp add: writeBinary_def buffer_defs Let_def)

lemma marshalFields_append_if:
  "(\<And>f. f \<in> set fs \<Longrightarrow> \<not> omit f \<Longrightarrow> appends (fvalue f)) \<Longrightarrow>
   marshalFields wr fs = (wr @ fields_bytes fs, fields_error fs)"
proof (induction fs arbitrary: wr)
  case Nil
  show ?case by simp
next
  case (Cons f fs)
  have IH: "marshalFields w fs = (w @ fields_bytes fs, fields_error fs)" for w
    using Cons by simp
  show ?case
  proof (cases "omit f")
    case True
    then show ?thesis
      by (simp add: IH buffer_defs field_bytes_def field_error_def)
  next
    case False
    then have app: "marshal w (fvalue f) = (w @ encoded (fvalue f), marshal_error (fvalue f))" for w
      using Cons.prems [of f] by (simp add: appends_def)
    show ?thesis
      using False by (cases "marshal_error (fvalue f)")
        (simp_all add: app IH field_bytes_def field_error_def)
  qed
qed

lemma marshalComposite_empty:
  "lastSet (- 1) 0 flds = - 1 \<Longrightarrow>
   marshalComposite wr code flds =
     (wr @ [0, typeCodeSmallUlong, code, typeCodeList0], None)"
  by (simp add: marshalComposite.simps buffer_defs)

lemma marshalComposite_list32:
  assumes "lastSet (- 1) 0 flds = L" and "L \<noteq> - 1"
    and "marshalFields (wr @ [0, typeCodeSmallUlong, code, typeCodeList32] @ [0, 0, 0, 0] @
                        be32 (of_int (L + 1))) (take (nat (L + 1)) flds) =
         (wr @ [0, typeCodeSmallUlong, code, typeCodeList32] @ [0, 0, 0, 0] @
            be32 (of_int (L + 1)) @ bs, e)"
  shows "marshalComposite wr code flds =
     (case e of
        Some err \<Rightarrow>
          (wr @ [0, typeCodeSmallUlong, code, typeCodeList32] @ [0, 0, 0, 0] @
             be32 (of_int (L + 1)) @ bs, Some err)
      | None \<Rightarrow>
          (wr @ [0, typeCodeSmallUlong, code, typeCodeList32] @
             be32 (of_nat (4 + length bs)) @ be32 (of_int (L + 1)) @ bs, None))"
proof -
  have put: "PutUint32 (Suc (Suc (Suc (Suc (length wr))))) v
      (wr @ 0 # typeCodeSmallUlong # code # typeCodeList32 # 0 # 0 # 0 # 0 # r) =
      wr @ 0 # typeCodeSmallUlong # code # typeCodeList32 # be32 v @ r" for v r
    using PutUint32_append [of "[0, 0, 0, 0]" "wr @ [0, typeCodeSmallUlong, code, typeCodeList32]" v r]
    by simp
  show ?thesis
    using assms
    by (simp add: marshalComposite.simps Let_def buffer_defs writeDescriptor_def put
        split: option.splits)
qed

lemma marshalComposite_append_if:
  assumes "\<And>f. f \<in> set flds \<Longrightarrow> \<not> omit f \<Longrightarrow> appends (fvalue f)"
  shows "marshalComposite wr code flds =
     (wr @ fst (marshalComposite [] code flds), snd (marshalComposite [] code flds))"
proof (cases "lastSet (- 1) 0 flds = - 1")
  case True
  then show ?thesis by (simp add: marshalComposite_empty)
next
  case False
  define L where "L = lastSet (- 1) 0 flds"
  define tk where "tk = take (nat (L + 1)) flds"
  have "\<And>f. f \<in> set tk \<Longrightarrow> \<not> omit f \<Longrightarrow> appends (fvalue f)"
    using assms by (auto simp: tk_def dest: in_set_takeD)
  then have mf: "marshalFields w tk = (w @ fields_bytes tk, fields_error tk)" for w
    by (rule marshalFields_append_if)
  have L: "lastSet (- 1) 0 flds = L" "L \<noteq> - 1"
    using False by (simp_all add: L_def)
  show ?thesis
    using marshalComposite_list32 [OF L, of wr code "fields_bytes tk" "fields_error tk"]
      marshalComposite_list32 [OF L, of "[]" code "fields_bytes tk" "fields_error tk"]
    by (simp add: mf tk_def [symmetric] split: option.splits)
qed

lemma marshal_appends: "appends v"
  and "\<not> omit f \<longrightarrow> appends (fvalue f)"
proof (induction v and f)
  case (VMarshaler code flds)
  then have "marshalComposite wr code flds =
     (wr @ fst (marshalComposite [] code flds), snd (marshalComposite [] code flds))" for wr
    by (intro marshalComposite_append_if) simp
  then show ?case
    unfolding appends_def encoded_def marshal_error_def marshal.simps by blast
next
  case (MarshalField v b)
  then show ?case by simp
next
  case (VString x)
  show ?case
    unfolding appends_def encoded_def marshal_error_def marshal.simps
    using writeString_append by blast
next
  case (VBinary x)
  show ?case
    unfolding appends_def encoded_def marshal_error_def marshal.simps
    using writeBinary_append by blast
qed (auto simp add: appends_def encoded_def marshal_error_def buffer_defs writeUint64_def
      writeUint32_def writeInt32_def writeInt64_def)


lemma marshalFields_eq: "marshalFields wr fs = (wr @ fields_bytes fs, fields_error fs)"
  by (rule marshalFields_append_if) (rule marshal_appends(1))

lemma unat_of_nat32: "n \<le> MaxUint32 \<Longrightarrow> unat (of_nat n :: 32 word) = n"
  by (simp add: unat_of_nat MaxUint32_def)

lemma lastSet_all_omitted: "\<forall>f \<in> set fs. omit f \<Longrightarrow> lastSet l i fs = l"
  by (induction fs arbitrary: i) simp_all

lemma lastSet_last:
  "L < length fs \<Longrightarrow> \<not> omit (fs ! L) \<Longrightarrow> \<forall>f \<in> set (drop (Suc L) fs). omit f \<Longrightarrow>
   lastSet l i fs = i + int L"
proof (induction fs arbitrary: l i L)
  case Nil
  then show ?case by simp
next
  case (Cons f fs)
  show ?case
  proof (cases L)
    case 0
    then show ?thesis using Cons.prems by (simp add: lastSet_all_omitted)
  next
    case (Suc L')
    have "lastSet l' (i + 1) fs = (i + 1) + int L'" for l'
      using Cons.prems Suc by (intro Cons.IH) simp_all
    then show ?thesis using Suc by simp
  qed
qed

lemma fields_bytes_ok:
  "\<forall>f \<in> set fs. field_error f = None \<Longrightarrow>
   fields_error fs = None \<and> fields_bytes fs = concat (map field_bytes fs)"
  by (induction fs) simp_all

lemma fields_error_Some:
  "fields_error fs = Some e \<Longrightarrow> \<exists>f \<in> set fs. field_error f = Some e"
  by (induction fs) (auto split: if_splits)

lemma fields_error_None:
  "fields_error fs = None \<Longrightarrow> \<forall>f \<in> set fs. field_error f = None"
  by (induction fs) (auto split: if_splits)

text \<open>
  Claim C1, as amended. For every composite code and list of fields: when every field
  is omitted, \<open>marshalComposite\<close> appends exactly the four bytes 0x00, smallulong,
  the code and list0. Otherwise let \<open>L\<close> be the index of the last field that is not
  omitted. When no field up to \<open>L\<close> fails to marshal, \<open>marshalComposite\<close> appends the
  descriptor (0x00, smallulong, code), the list32 code, the four bytes of the size, the
  four bytes of the count and then, in order, null for each omitted field up to \<open>L\<close>
  and the encoding of each other field up to \<open>L\<close>; nothing is written for the fields
  after \<open>L\<close>. The size is the number of bytes after the size field (the count and the
  fields) and the count is \<open>L + 1\<close>, both as 32-bit values, so they are these numbers
  whenever these are below \<open>2^32\<close>. When a field up to \<open>L\<close> fails to marshal,
  \<open>marshalComposite\<close> returns the error of the first such field; the buffer then holds
  what was written up to that point and the size field is still zero.
\<close>

theorem marshalComposite_layout:
  "((\<forall>f \<in> set flds. omit f) \<longrightarrow>
      marshalComposite wr code flds =
        (wr @ [0x00, typeCodeSmallUlong, code, typeCodeList0], None)) \<and>
   (L < length flds \<and> \<not> omit (flds ! L) \<and>
    (\<forall>f \<in> set (drop (Suc L) flds). omit f) \<longrightarrow>
      ((\<forall>f \<in> set (take (Suc L) flds). field_error f = None) \<longrightarrow>
         marshalComposite wr code flds =
           (wr @ [0x00, typeCodeSmallUlong, code, typeCodeList32] @
              be32 (of_nat (4 + length (concat (map field_bytes (take (Suc L) flds))))) @
              be32 (of_nat (Suc L)) @
              concat (map field_bytes (take (Suc L) flds)), None) \<and>
         (4 + length (concat (map field_bytes (take (Suc L) flds))) \<le> MaxUint32 \<longrightarrow>
            unat (of_nat (4 + length (concat (map field_bytes (take (Suc L) flds)))) :: 32 word) =
              4 + length (concat (map field_bytes (take (Suc L) flds)))) \<and>
         (Suc L \<le> MaxUint32 \<longrightarrow> unat (of_nat (Suc L) :: 32 word) = Suc L)) \<and>
      (\<forall>e. fields_error (take (Suc L) flds) = Some e \<longrightarrow>
         marshalComposite wr code flds =
           (wr @ [0x00, typeCodeSmallUlong, code, typeCodeList32] @ [0, 0, 0, 0] @
              be32 (of_nat (Suc L)) @ fields_bytes (take (Suc L) flds), Some e)))"
proof (intro conjI impI allI)
  assume "\<forall>f \<in> set flds. omit f"
  then have "lastSet (- 1) 0 flds = - 1" by (rule lastSet_all_omitted)
  then show "marshalComposite wr code flds =
        (wr @ [0x00, typeCodeSmallUlong, code, typeCodeList0], None)"
    by (rule marshalComposite_empty)
next
  assume last: "L < length flds \<and> \<not> omit (flds ! L) \<and>
    (\<forall>f \<in> set (drop (Suc L) flds). omit f)"
  then have L: "lastSet (- 1) 0 flds = int L" "int L \<noteq> - 1"
    using lastSet_last [of L flds "- 1" 0] by simp_all
  have tk: "take (nat (int L + 1)) flds = take (Suc L) flds"
    by (simp add: nat_add_distrib)
  have cnt: "(word_of_int (int L + 1) :: 32 word) = of_nat (Suc L)"
    by (simp add: add.commute)
  note comp = marshalComposite_list32 [OF L, of wr code "fields_bytes (take (Suc L) flds)"
      "fields_error (take (Suc L) flds)", unfolded tk cnt marshalFields_eq, simplified]
  {
    assume "\<forall>f \<in> set (take (Suc L) flds). field_error f = None"
    then have "fields_error (take (Suc L) flds) = None"
      "fields_bytes (take (Suc L) flds) = concat (map field_bytes (take (Suc L) flds))"
      using fields_bytes_ok by blast+
    then show "marshalComposite wr code flds =
           (wr @ [0x00, typeCodeSmallUlong, code, typeCodeList32] @
              be32 (of_nat (4 + length (concat (map field_bytes (take (Suc L) flds))))) @
              be32 (of_nat (Suc L)) @
              concat (map field_bytes (take (Suc L) flds)), None)"
      using comp by simp
  }
  {
    assume "4 + length (concat (map field_bytes (take (Suc L) flds))) \<le> MaxUint32"
    then show "unat (of_nat (4 + length (concat (map field_bytes (take (Suc L) flds)))) :: 32 word) =
        4 + length (concat (map field_bytes (take (Suc L) flds)))"
      by (rule unat_of_nat32)
  }
  {
    assume "Suc L \<le> MaxUint32"
    then show "unat (of_nat (Suc L) :: 32 word) = Suc L"
      by (rule unat_of_nat32)
  }
  {
    fix e assume "fields_error (take (Suc L) flds) = Some e"
    then show "marshalComposite wr code flds =
           (wr @ [0x00, typeCodeSmallUlong, code, typeCodeList32] @ [0, 0, 0, 0] @
              be32 (of_nat (Suc L)) @ fields_bytes (take (Suc L) flds), Some e)"
      using comp by simp
  }
qed


theorem marshalComposite_layout_witness:
  "marshalComposite [] typeCodeEnd [MarshalField VNil True] = ([0x00, 0x53, 0x17, 0x45], None) \<and>
   marshalComposite [] typeCodeDetach
     [MarshalField (VUint32 0) False, MarshalField (VBool True) False, MarshalField VNil True] =
   ([0x00, 0x53, 0x16, 0xd0, 0, 0, 0, 6, 0, 0, 0, 2, 0x43, 0x41], None) \<and>
   marshalComposite [] typeCodeDetach
     [MarshalField (VUint32 0) False, MarshalField VUnsupported False, MarshalField VNil True] =
   ([0x00, 0x53, 0x16, 0xd0, 0, 0, 0, 0, 0, 0, 0, 2, 0x43], Some ErrNotImplemented)"
  using marshalComposite_layout [of "[MarshalField VNil True]" "[]" typeCodeEnd 0]
    marshalComposite_layout [of "[MarshalField (VUint32 0) False, MarshalField (VBool True) False,
      MarshalField VNil True]" "[]" typeCodeDetach 1]
    marshalComposite_layout [of "[MarshalField (VUint32 0) False, MarshalField VUnsupported False,
      MarshalField VNil True]" "[]" typeCodeDetach 1]
  by (simp add: field_error_def field_bytes_def marshal_error_def encoded_def writeUint32_def
      buffer_defs typeCode_defs be32_def less_Suc_eq_0_disj)

text \<open>
  Claim C8. \<open>writeString\<close> returns an error for a string that is not valid UTF-8 and
  then leaves the buffer as it was. A valid string shorter than 256 bytes is written as
  the str8 code, one byte holding its length and its bytes; a valid string of 256 bytes
  or more and fewer than \<open>2^32 - 1\<close> bytes as the str32 code, its length in four bytes
  (big-endian) and its bytes.
\<close>

theorem writeString_encoding:
  "(\<not> ValidString str \<longrightarrow> writeString wr str = (wr, Some ErrInvalidUTF8)) \<and>
   (ValidString str \<and> length str < 256 \<longrightarrow>
      writeString wr str = (wr @ [typeCodeStr8, of_nat (length str)] @ str, None) \<and>
      unat (of_nat (length str) :: byte) = length str) \<and>
   (ValidString str \<and> 256 \<le> length str \<and> length str < 2 ^ 32 - 1 \<longrightarrow>
      writeString wr str = (wr @ [typeCodeStr32] @ be32 (of_nat (length str)) @ str, None) \<and>
      unat (of_nat (length str) :: 32 word) = length str)"
  by (simp add: writeString_def buffer_defs Let_def MaxUint32_def unat_of_nat)

lemma ValidString_ascii: "\<forall>b \<in> set bs. b < 0x80 \<Longrightarrow> ValidString bs"
  by (induction bs) simp_all

theorem writeString_encoding_witness:
  "\<not> ValidString [0xff] \<and> writeString [0x40] [0xff] = ([0x40], Some ErrInvalidUTF8) \<and>
   ValidString [0x68, 0x69] \<and> writeString [0x40] [0x68, 0x69] = ([0x40, 0xa1, 2, 0x68, 0x69], None) \<and>
   ValidString (replicate 300 0x61) \<and>
   writeString [0x40] (replicate 300 0x61) =
     ([0x40, 0xb1, 0, 0, 1, 0x2c] @ replicate 300 0x61, None)"
  using writeString_encoding [of "[0xff]" "[0x40]"] writeString_encoding [of "[0x68, 0x69]" "[0x40]"]
    writeString_encoding [of "replicate 300 0x61" "[0x40]"]
    ValidString_ascii [of "replicate 300 0x61"]
  by (simp add: typeCode_defs be32_def)



lemma encoded_VBinary_replicate:
  "256 \<le> n \<Longrightarrow> n < MaxUint32 \<Longrightarrow>
   encoded (VBinary (replicate n x)) = [typeCodeVbin32] @ be32 (of_nat n) @ replicate n x \<and>
   marshal_error (VBinary (replicate n x)) = None"
  by (simp add: encoded_def marshal_error_def writeBinary_def buffer_defs)

lemma big_fields_marshal:
  "marshalComposite [] typeCodeEnd big_fields =
     ([0x00, 0x53, 0x17, 0xd0, 0, 0, 0, 14, 0, 0, 0, 2] @
      ([0xb0, 0x80, 0, 0, 0] @ replicate 2147483648 0) @
      ([0xb0, 0x80, 0, 0, 0] @ replicate 2147483648 0), None)"
proof -
  have L: "lastSet (- 1) 0 big_fields = 1" "(1::int) \<noteq> - 1"
    by (simp_all add: big_fields_def)
  have e: "encoded (VBinary (replicate 2147483648 0)) =
      [typeCodeVbin32] @ be32 (of_nat 2147483648) @ replicate 2147483648 0"
     "marshal_error (VBinary (replicate 2147483648 0)) = None"
    using encoded_VBinary_replicate [of 2147483648 0] by (simp_all add: MaxUint32_def)
  have f: "fields_error big_fields = None"
    "fields_bytes big_fields =
       ([0xb0, 0x80, 0, 0, 0] @ replicate 2147483648 0) @
       ([0xb0, 0x80, 0, 0, 0] @ replicate 2147483648 0)"
    by (simp_all add: big_fields_def field_error_def field_bytes_def e typeCode_defs be32_def)
  have tk: "take 2 big_fields = big_fields"
    by (simp add: big_fields_def)
  show ?thesis
    using marshalComposite_list32 [OF L, of "[]" typeCodeEnd "fields_bytes big_fields" None]
    by (simp add: marshalFields_eq tk f typeCode_defs be32_def)
qed


text \<open>
  Claim C1 as stated fails in two ways. On a list with a field that does not marshal
  (a detach with a handle and a string that is not valid UTF-8) \<open>marshalComposite\<close>
  returns the error; five bytes stand after the size field and the size field is 0. On
  a list whose fields marshal to more than \<open>2^32\<close> bytes the size field is not the
  number of bytes after it: 4294967310 bytes follow a size field of 14.
\<close>

theorem marshalComposite_counterexample:
  "marshalComposite [] typeCodeDetach
     [MarshalField (VUint32 0) False, MarshalField (VString [0xff]) False] =
   ([0x00, 0x53, 0x16, 0xd0, 0, 0, 0, 0, 0, 0, 0, 2, 0x43], Some ErrInvalidUTF8) \<and>
   marshalComposite [] typeCodeEnd big_fields =
     ([0x00, 0x53, 0x17, 0xd0, 0, 0, 0, 14, 0, 0, 0, 2] @
      ([0xb0, 0x80, 0, 0, 0] @ replicate 2147483648 0) @
      ([0xb0, 0x80, 0, 0, 0] @ replicate 2147483648 0), None) \<and>
   length (drop 8 (fst (marshalComposite [] typeCodeEnd big_fields))) = 4294967310"
  by (simp add: big_fields_marshal)
     (simp add: marshalComposite.simps Let_def buffer_defs writeDescriptor_def writeUint32_def
      writeString_def typeCode_defs be32_def PutUint32_def)





section \<open>Properties of the sender and the link\<close>

lemma div_add_self_Suc: "0 < n \<Longrightarrow> (n + k) div n = Suc (k div n)" for n k :: nat
  using div_add_self1 [of n k] by simp

lemma chunk_count_single: "0 < n \<Longrightarrow> length b \<le> n \<Longrightarrow> chunk_count n b = 1"
proof (cases "b = []")
  case True
  then show ?thesis by (simp add: chunk_count_def)
next
  case False
  assume "0 < n" "length b \<le> n"
  then have "n \<le> length b + n - 1" "length b + n - 1 < 2 * n"
    using False by (cases b; simp)+
  then have "(length b + n - 1) div n = 1"
    by (metis One_nat_def Suc_1 div_nat_eqI mult.commute nat_mult_1_right)
  then show ?thesis using False by (simp add: chunk_count_def)
qed

lemma chunk_count_more:
  assumes "0 < n" "length c = n" "r \<noteq> []"
  shows "chunk_count n (c @ r) = Suc (chunk_count n r)"
proof -
  have "length (c @ r) + n - 1 = n + (length r + n - 1)"
    using assms(1,2) by simp
  then have "(length (c @ r) + n - 1) div n = (n + (length r + n - 1)) div n"
    by (rule arg_cong)
  also have "\<dots> = Suc ((length r + n - 1) div n)"
    using assms(1) by (rule div_add_self_Suc)
  finally show ?thesis using assms by (auto simp: chunk_count_def)
qed

lemma chunked_single:
  assumes "length b \<le> n" "Payload f = b" "\<not> More f" "DeliveryID f = DeliveryID fr"
    "DeliveryTag f = DeliveryTag fr" "MessageFormat f = MessageFormat fr"
  shows "chunked n fr b [f]"
  using assms by (simp add: chunked_def)

lemma chunked_Cons:
  assumes "0 < n" "chunked n fr' r frs" "r \<noteq> []" "length (Payload f) = n" "More f"
    "DeliveryID f = DeliveryID fr" "DeliveryTag f = DeliveryTag fr"
    "MessageFormat f = MessageFormat fr"
    "DeliveryID fr' = None" "DeliveryTag fr' = []" "MessageFormat fr' = None"
  shows "chunked n fr (Payload f @ r) (f # frs)"
proof -
  have P: "Payload f \<noteq> []" using assms(1,4) by auto
  have frs: "frs \<noteq> []" "concat (map Payload frs) = r"
    using assms(2) by (simp_all add: chunked_def)
  have ix: "(Payload (frs ! i) \<noteq> []) \<and>
         length (Payload (frs ! i)) \<le> n \<and>
         (Suc i < length frs \<longrightarrow> length (Payload (frs ! i)) = n) \<and>
         More (frs ! i) = (Suc i < length frs) \<and>
         DeliveryID (frs ! i) = None \<and>
         DeliveryTag (frs ! i) = [] \<and>
         MessageFormat (frs ! i) = None" if "i < length frs" for i
    using assms(2,3,9,10,11) that by (simp add: chunked_def)
  show ?thesis
    unfolding chunked_def
  proof (intro conjI allI impI)
    fix i assume i: "i < length (f # frs)"
    show "Payload ((f # frs) ! i) \<noteq> []"
      using i P ix by (cases i) simp_all
    show "length (Payload ((f # frs) ! i)) \<le> n"
      using i assms(4) ix by (cases i) simp_all
    show "More ((f # frs) ! i) = (Suc i < length (f # frs))"
      using i assms(5) frs(1) ix by (cases i) simp_all
    show "DeliveryID ((f # frs) ! i) = (if i = 0 then DeliveryID fr else None)"
      using i assms(6) ix by (cases i) simp_all
    show "DeliveryTag ((f # frs) ! i) = (if i = 0 then DeliveryTag fr else [])"
      using i assms(7) ix by (cases i) simp_all
    show "MessageFormat ((f # frs) ! i) = (if i = 0 then MessageFormat fr else None)"
      using i assms(8) ix by (cases i) simp_all
    assume "Suc i < length (f # frs)"
    then show "length (Payload ((f # frs) ! i)) = n"
      using assms(4) ix by (cases i) simp_all
  qed (simp_all add: frs)
qed

lemma send_loop_step:
  assumes "More fr" "0 < n"
  shows "send_loop n ss env k s fr =
    (case env k of
       Enqueued \<Rightarrow>
         send_loop n ss env (Suc k)
           (s\<lparr>buf := drop (nat n) (buf s),
              transfers := transfers s @
                [if drop (nat n) (buf s) \<noteq> []
                 then fr\<lparr>Payload := take (nat n) (buf s), More := True\<rparr>
                 else fr\<lparr>Payload := take (nat n) (buf s), More := False, Settled := ss,
                        Done := True\<rparr>]\<rparr>)
           (if drop (nat n) (buf s) \<noteq> []
            then fr\<lparr>Payload := take (nat n) (buf s), More := True, DeliveryID := None,
                   DeliveryTag := [], MessageFormat := None\<rparr>
            else fr\<lparr>Payload := take (nat n) (buf s), More := False, Settled := ss,
                   Done := True, DeliveryID := None, DeliveryTag := [], MessageFormat := None\<rparr>)
     | LinkDone err \<Rightarrow> Some (s\<lparr>buf := drop (nat n) (buf s)\<rparr>, False, err)
     | CtxDone err \<Rightarrow> Some (s\<lparr>buf := drop (nat n) (buf s)\<rparr>, False, Some err))"
  using assms
  by (subst send_loop.simps) (simp add: Let_def Next_def Len_def split: select_outcome.splits)

lemma send_loop_stop: "\<not> More fr \<Longrightarrow> send_loop n ss env k s fr = Some (s, Done fr, None)"
  by (subst send_loop.simps) simp

lemma send_loop_stuck: "More fr \<Longrightarrow> n \<le> 0 \<Longrightarrow> send_loop n ss env k s fr = None"
  by (subst send_loop.simps) simp

lemma send_loop_accepted:
  assumes "send_loop n ss env k s fr = Some (s', ch, None)" "More fr"
    "\<forall>j. env j \<noteq> LinkDone None"
  shows "0 < n \<and> ch \<and>
    (\<exists>frs. s' = s\<lparr>buf := [], transfers := transfers s @ frs\<rparr> \<and>
       chunked (nat n) fr (buf s) frs \<and> length frs = chunk_count (nat n) (buf s))"
  using assms
proof (induction "length (buf s)" arbitrary: s fr k rule: less_induct)
  case less
  have n: "0 < n"
    using less.prems(1,2) send_loop_stuck [of fr n ss env k s] by (cases "n \<le> 0") auto
  define r where "r = drop (nat n) (buf s)"
  define c where "c = take (nat n) (buf s)"
  have cr: "c @ r = buf s" by (simp add: c_def r_def)
  have enq: "env k = Enqueued"
    using less.prems n by (cases "env k") (auto simp: send_loop_step)
  show ?case
  proof (cases "r = []")
    case True
    define f where "f = fr\<lparr>Payload := c, More := False, Settled := ss, Done := True\<rparr>"
    have "send_loop n ss env k s fr =
        Some (s\<lparr>buf := [], transfers := transfers s @ [f]\<rparr>, True, None)"
      using True less.prems(2) n enq
      by (simp add: send_loop_step send_loop_stop r_def [symmetric] c_def [symmetric] f_def)
    then have res: "s' = s\<lparr>buf := [], transfers := transfers s @ [f]\<rparr>" "ch"
      using less.prems(1) by simp_all
    have len: "length (buf s) \<le> nat n" using True by (simp add: r_def)
    then have "c = buf s" by (simp add: c_def)
    then have "chunked (nat n) fr (buf s) [f]"
      using len by (intro chunked_single) (simp_all add: f_def)
    moreover have "length [f] = chunk_count (nat n) (buf s)"
      using chunk_count_single [of "nat n" "buf s"] n len by simp
    ultimately show ?thesis using n res by blast
  next
    case False
    define f where "f = fr\<lparr>Payload := c, More := True\<rparr>"
    define f3 where "f3 = fr\<lparr>Payload := c, More := True, DeliveryID := None,
                   DeliveryTag := [], MessageFormat := None\<rparr>"
    define s1 where "s1 = s\<lparr>buf := r, transfers := transfers s @ [f]\<rparr>"
    have step: "send_loop n ss env k s fr = send_loop n ss env (Suc k) s1 f3"
      using False less.prems(2) n enq
      by (simp add: send_loop_step r_def [symmetric] c_def [symmetric] f_def f3_def s1_def)
    have shorter: "length (buf s1) < length (buf s)"
      using False n by (auto simp: s1_def r_def)
    have "0 < n \<and> ch \<and>
      (\<exists>frs. s' = s1\<lparr>buf := [], transfers := transfers s1 @ frs\<rparr> \<and>
         chunked (nat n) f3 (buf s1) frs \<and> length frs = chunk_count (nat n) (buf s1))"
      using less.prems(1,3) step by (intro less.hyps [OF shorter]) (simp_all add: f3_def)
    then obtain frs where frs: "ch" "s' = s1\<lparr>buf := [], transfers := transfers s1 @ frs\<rparr>"
      "chunked (nat n) f3 r frs" "length frs = chunk_count (nat n) r"
      by (auto simp: s1_def)
    have lc: "length c = nat n" using False by (auto simp: c_def r_def)
    have "chunked (nat n) fr (Payload f @ r) (f # frs)"
      using n frs(3) False lc by (intro chunked_Cons [where fr' = f3]) (simp_all add: f_def f3_def)
    then have "chunked (nat n) fr (buf s) (f # frs)"
      using cr by (simp add: f_def)
    moreover have "length (f # frs) = chunk_count (nat n) (buf s)"
      using chunk_count_more [of "nat n" c r] n lc False frs(4) cr by simp
    moreover have "s' = s\<lparr>buf := [], transfers := transfers s @ (f # frs)\<rparr>"
      using frs(2) by (simp add: s1_def)
    ultimately show ?thesis using n frs(1) by blast
  qed
qed

lemma send_loop_total:
  assumes "0 < n" "\<forall>j. env j = Enqueued" "More fr"
  shows "\<exists>s'. send_loop n ss env k s fr = Some (s', True, None)"
  using assms
proof (induction "length (buf s)" arbitrary: s fr k rule: less_induct)
  case less
  show ?case
  proof (cases "drop (nat n) (buf s) = []")
    case True
    then show ?thesis
      using less.prems by (simp add: send_loop_step send_loop_stop)
  next
    case False
    define s1 where "s1 = s\<lparr>buf := drop (nat n) (buf s),
            transfers := transfers s @ [fr\<lparr>Payload := take (nat n) (buf s), More := True\<rparr>]\<rparr>"
    define f3 where "f3 = fr\<lparr>Payload := take (nat n) (buf s), More := True, DeliveryID := None,
                   DeliveryTag := [], MessageFormat := None\<rparr>"
    have "length (buf s1) < length (buf s)"
      using False less.prems(1) by (auto simp: s1_def)
    moreover have "More f3" by (simp add: f3_def)
    ultimately have "\<exists>s'. send_loop n ss env (Suc k) s1 f3 = Some (s', True, None)"
      using less.prems(1,2) by (intro less.hyps)
    then show ?thesis
      using False less.prems by (simp add: send_loop_step s1_def f3_def)
  qed
qed

lemma send_loop_result:
  assumes "send_loop n ss env k s fr = Some (s', ch, err)" "More fr"
  shows "s_l s' = s_l s \<and> nextDeliveryTag s' = nextDeliveryTag s \<and>
    (\<exists>frs. transfers s' = transfers s @ frs \<and>
       (\<forall>i < length frs. DeliveryTag (frs ! i) = (if i = 0 then DeliveryTag fr else []))) \<and>
    (\<forall>e. err = Some e \<longrightarrow> (\<exists>j. env j = LinkDone (Some e) \<or> env j = CtxDone e))"
  using assms
proof (induction "length (buf s)" arbitrary: s fr k rule: less_induct)
  case less
  have n: "0 < n"
    using less.prems(1,2) send_loop_stuck [of fr n ss env k s] by (cases "n \<le> 0") auto
  define r where "r = drop (nat n) (buf s)"
  define c where "c = take (nat n) (buf s)"
  show ?case
  proof (cases "env k")
    case (LinkDone e)
    then have "s' = s\<lparr>buf := r\<rparr>" "err = e"
      using less.prems n by (simp_all add: send_loop_step r_def)
    then show ?thesis using LinkDone by auto
  next
    case (CtxDone e)
    then have "s' = s\<lparr>buf := r\<rparr>" "err = Some e"
      using less.prems n by (simp_all add: send_loop_step r_def)
    then show ?thesis using CtxDone by auto
  next
    case Enqueued
    show ?thesis
    proof (cases "r = []")
      case True
      define f where "f = fr\<lparr>Payload := c, More := False, Settled := ss, Done := True\<rparr>"
      have "send_loop n ss env k s fr =
          Some (s\<lparr>buf := [], transfers := transfers s @ [f]\<rparr>, True, None)"
        using True less.prems(2) n Enqueued
        by (simp add: send_loop_step send_loop_stop r_def [symmetric] c_def [symmetric] f_def)
      then have res: "s' = s\<lparr>buf := [], transfers := transfers s @ [f]\<rparr>" "err = None"
        using less.prems(1) by simp_all
      have "\<forall>i < length [f]. DeliveryTag ([f] ! i) = (if i = 0 then DeliveryTag fr else [])"
        by (simp add: f_def)
      then show ?thesis using res by (intro conjI exI [of _ "[f]"]) simp_all
    next
      case False
      define f where "f = fr\<lparr>Payload := c, More := True\<rparr>"
      define f3 where "f3 = fr\<lparr>Payload := c, More := True, DeliveryID := None,
                     DeliveryTag := [], MessageFormat := None\<rparr>"
      define s1 where "s1 = s\<lparr>buf := r, transfers := transfers s @ [f]\<rparr>"
      have step: "send_loop n ss env k s fr = send_loop n ss env (Suc k) s1 f3"
        using False less.prems(2) n Enqueued
        by (simp add: send_loop_step r_def [symmetric] c_def [symmetric] f_def f3_def s1_def)
      have shorter: "length (buf s1) < length (buf s)"
        using False n by (auto simp: s1_def r_def)
      have IH: "s_l s' = s_l s1 \<and> nextDeliveryTag s' = nextDeliveryTag s1 \<and>
        (\<exists>frs. transfers s' = transfers s1 @ frs \<and>
           (\<forall>i < length frs. DeliveryTag (frs ! i) = (if i = 0 then DeliveryTag f3 else []))) \<and>
        (\<forall>e. err = Some e \<longrightarrow> (\<exists>j. env j = LinkDone (Some e) \<or> env j = CtxDone e))"
        using less.prems(1) step by (intro less.hyps [OF shorter]) (simp_all add: f3_def)
      then obtain frs where frs: "transfers s' = transfers s1 @ frs"
        "\<forall>i < length frs. DeliveryTag (frs ! i) = []"
        by (auto simp: f3_def)
      have "\<forall>i < length (f # frs). DeliveryTag ((f # frs) ! i) =
          (if i = 0 then DeliveryTag fr else [])"
        using frs(2) by (auto simp: nth_Cons' f_def)
      moreover have "transfers s' = transfers s @ (f # frs)"
        using frs(1) by (simp add: s1_def)
      ultimately show ?thesis using IH by (intro conjI exI [of _ "f # frs"]) (simp_all add: s1_def)
    qed
  qed
qed

lemma uint_less_int: "(uint m < int n) = (unat m < n)"
  by (subst uint_nat) (rule of_nat_less_iff)

lemma send_cases:
  "send M env s0 msg =
     (if length (msg_DeliveryTag msg) > 32 then
        Some (s0, False, Some (ErrDeliveryTagTooLong (length (msg_DeliveryTag msg))))
      else if snd (M msg []) \<noteq> None then
        Some (s0\<lparr>buf := fst (M msg [])\<rparr>, False, snd (M msg []))
      else if too_large s0 (fst (M msg [])) then
        Some (s0\<lparr>buf := fst (M msg [])\<rparr>, False,
              Some (ErrMessageTooLarge (maxMessageSize (s_l s0))))
      else
        send_loop (uint (peerMaxFrameSize (s_l s0)) - 66) (senderSettled_of s0 msg) env 0
          (s0\<lparr>buf := fst (M msg []),
              nextDeliveryTag := (if msg_DeliveryTag msg = [] then nextDeliveryTag s0 + 1
                                  else nextDeliveryTag s0)\<rparr>)
          (first_transfer s0 msg (fst (M msg []))))"
  by (simp add: send_def Let_def maxDeliveryTagLength_def maxTransferFrameHeader_def
      buffer_defs too_large_def senderSettled_of_def first_transfer_def uint_less_int)

lemma send_accepted:
  assumes "send M env s0 msg = Some (s', ch, None)" "\<forall>k. env k \<noteq> LinkDone None"
  shows "length (msg_DeliveryTag msg) \<le> 32 \<and> snd (M msg []) = None \<and>
    \<not> too_large s0 (fst (M msg [])) \<and>
    (if fst (M msg []) = [] then transfers s' = transfers s0
     else 66 < uint (peerMaxFrameSize (s_l s0)) \<and> ch \<and>
       (\<exists>frs. transfers s' = transfers s0 @ frs \<and>
          chunked (nat (uint (peerMaxFrameSize (s_l s0)) - 66))
            (first_transfer s0 msg (fst (M msg []))) (fst (M msg [])) frs \<and>
          length frs = chunk_count (nat (uint (peerMaxFrameSize (s_l s0)) - 66)) (fst (M msg []))))"
proof -
  define b where "b = fst (M msg [])"
  define s2 where "s2 = s0\<lparr>buf := b,
              nextDeliveryTag := (if msg_DeliveryTag msg = [] then nextDeliveryTag s0 + 1
                                  else nextDeliveryTag s0)\<rparr>"
  have pre: "length (msg_DeliveryTag msg) \<le> 32" "snd (M msg []) = None" "\<not> too_large s0 b"
    using assms(1) by (auto simp: send_cases b_def split: if_splits)
  then have loop: "send_loop (uint (peerMaxFrameSize (s_l s0)) - 66) (senderSettled_of s0 msg) env 0
      s2 (first_transfer s0 msg b) = Some (s', ch, None)"
    using assms(1) by (simp add: send_cases b_def s2_def)
  show ?thesis
  proof (cases "b = []")
    case True
    then have "\<not> More (first_transfer s0 msg b)" by (simp add: first_transfer_def)
    then have "s' = s2" using loop by (simp add: send_loop_stop)
    then show ?thesis using pre True by (simp add: b_def [symmetric] s2_def)
  next
    case False
    then have "More (first_transfer s0 msg b)" by (simp add: first_transfer_def)
    from send_loop_accepted [OF loop this assms(2)]
    show ?thesis using pre False by (auto simp: b_def [symmetric] s2_def)
  qed
qed

text \<open>
  Claim C2. When \<open>send\<close> accepts a message (it returns no error, and the link is not
  seen done with a nil error), the transfer frames it has put on the channel carry the
  marshaled message in successive chunks, none empty and none longer than
  \<open>peerMaxFrameSize - 66\<close> bytes (each but the last of exactly that size). \<open>More\<close> is
  true on every frame but the last and false on the last. \<open>DeliveryID\<close>, \<open>DeliveryTag\<close>
  and \<open>MessageFormat\<close> are set on the first frame and nil on every later one.
\<close>

theorem send_transfers:
  assumes "send Marshal env s0 msg = Some (s', ch, None)" and "\<forall>k. env k \<noteq> LinkDone None"
  shows "\<exists>frs. transfers s' = transfers s0 @ frs \<and>
      concat (map Payload frs) = fst (Marshal msg []) \<and>
      (\<forall>i < length frs.
         Payload (frs ! i) \<noteq> [] \<and>
         int (length (Payload (frs ! i))) \<le> uint (peerMaxFrameSize (s_l s0)) - 66 \<and>
         (Suc i < length frs \<longrightarrow>
            int (length (Payload (frs ! i))) = uint (peerMaxFrameSize (s_l s0)) - 66) \<and>
         More (frs ! i) = (Suc i < length frs) \<and>
         DeliveryID (frs ! i) = (if i = 0 then Some needsDeliveryID else None) \<and>
         DeliveryTag (frs ! i) =
           (if i = 0 then (if msg_DeliveryTag msg = [] then be64 (nextDeliveryTag s0)
                           else msg_DeliveryTag msg)
            else []) \<and>
         MessageFormat (frs ! i) = (if i = 0 then Some (msg_Format msg) else None))"
proof (cases "fst (Marshal msg []) = []")
  case True
  then have "transfers s' = transfers s0"
    using send_accepted [OF assms] by simp
  then show ?thesis using True by (intro exI [of _ "[]"]) simp
next
  case False
  then obtain frs where n: "66 < uint (peerMaxFrameSize (s_l s0))"
    and frs: "transfers s' = transfers s0 @ frs"
      "chunked (nat (uint (peerMaxFrameSize (s_l s0)) - 66))
         (first_transfer s0 msg (fst (Marshal msg []))) (fst (Marshal msg [])) frs"
    using send_accepted [OF assms] by auto
  show ?thesis
  proof (intro exI [of _ frs] conjI allI impI)
    show "transfers s' = transfers s0 @ frs" by (rule frs(1))
    show "concat (map Payload frs) = fst (Marshal msg [])"
      using frs(2) by (simp add: chunked_def)
  next
    fix i assume i: "i < length frs"
    note c = frs(2) [unfolded chunked_def, THEN conjunct2, THEN conjunct2, rule_format, OF i]
    show "Payload (frs ! i) \<noteq> []" using c False by simp
    have "length (Payload (frs ! i)) \<le> nat (uint (peerMaxFrameSize (s_l s0)) - 66)"
      using c by simp
    then show "int (length (Payload (frs ! i))) \<le> uint (peerMaxFrameSize (s_l s0)) - 66"
      using n by linarith
    show "More (frs ! i) = (Suc i < length frs)" using c by simp
    show "DeliveryID (frs ! i) = (if i = 0 then Some needsDeliveryID else None)"
      using c by (simp add: first_transfer_def)
    show "DeliveryTag (frs ! i) =
           (if i = 0 then (if msg_DeliveryTag msg = [] then be64 (nextDeliveryTag s0)
                           else msg_DeliveryTag msg)
            else [])"
      using c by (simp add: first_transfer_def)
    show "MessageFormat (frs ! i) = (if i = 0 then Some (msg_Format msg) else None)"
      using c by (simp add: first_transfer_def)
    assume "Suc i < length frs"
    then have "length (Payload (frs ! i)) = nat (uint (peerMaxFrameSize (s_l s0)) - 66)"
      using c by simp
    then show "int (length (Payload (frs ! i))) = uint (peerMaxFrameSize (s_l s0)) - 66"
      using n by linarith
  qed
qed

lemma send_all_enqueued:
  assumes "length (msg_DeliveryTag msg) \<le> 32" "M msg [] = (b, None)" "\<not> too_large s0 b"
    "66 < uint (peerMaxFrameSize (s_l s0))" "b \<noteq> []" "\<forall>k. env k = Enqueued"
  shows "\<exists>s' frs. send M env s0 msg = Some (s', True, None) \<and>
      transfers s' = transfers s0 @ frs \<and>
      chunked (nat (uint (peerMaxFrameSize (s_l s0)) - 66)) (first_transfer s0 msg b) b frs \<and>
      length frs = chunk_count (nat (uint (peerMaxFrameSize (s_l s0)) - 66)) b"
proof -
  have more: "More (first_transfer s0 msg b)" using assms(5) by (simp add: first_transfer_def)
  have pos: "0 < uint (peerMaxFrameSize (s_l s0)) - 66" using assms(4) by simp
  obtain s' where "send_loop (uint (peerMaxFrameSize (s_l s0)) - 66) (senderSettled_of s0 msg)
      env 0 (s0\<lparr>buf := b,
              nextDeliveryTag := (if msg_DeliveryTag msg = [] then nextDeliveryTag s0 + 1
                                  else nextDeliveryTag s0)\<rparr>)
      (first_transfer s0 msg b) = Some (s', True, None)"
    using send_loop_total [OF pos assms(6) more] by blast
  then have s': "send M env s0 msg = Some (s', True, None)"
    using assms(1,2,3) by (simp add: send_cases)
  have "\<forall>k. env k \<noteq> LinkDone None" using assms(6) by simp
  from send_accepted [OF s' this] show ?thesis
    using assms(2,5) s' by auto
qed

theorem send_transfers_witness:
  "send Message_Marshal all_enqueued (test_sender 70) (NewMessage [1, 2, 3]) =
     Some ((test_sender 70)\<lparr>buf := [], nextDeliveryTag := 1, transfers :=
       [\<lparr>Handle = 0, DeliveryID = Some 0, DeliveryTag = [0, 0, 0, 0, 0, 0, 0, 0],
         MessageFormat = Some 0, Settled = False, More = True, Payload = [0, 0x53, 0x75, 0xa0],
         Done = False\<rparr>,
        \<lparr>Handle = 0, DeliveryID = None, DeliveryTag = [], MessageFormat = None, Settled = False,
         More = False, Payload = [3, 1, 2, 3], Done = True\<rparr>]\<rparr>, True, None) \<and>
   (\<exists>frs. [\<lparr>Handle = 0, DeliveryID = Some 0, DeliveryTag = [0, 0, 0, 0, 0, 0, 0, 0],
         MessageFormat = Some 0, Settled = False, More = True, Payload = [0, 0x53, 0x75, 0xa0],
         Done = False\<rparr>,
        \<lparr>Handle = 0, DeliveryID = None, DeliveryTag = [], MessageFormat = None, Settled = False,
         More = False, Payload = [3, 1, 2, 3], Done = True\<rparr>] = transfers (test_sender 70) @ frs \<and>
      concat (map Payload frs) = [0, 0x53, 0x75, 0xa0, 3, 1, 2, 3])"
proof -
  have run: "send Message_Marshal all_enqueued (test_sender 70) (NewMessage [1, 2, 3]) =
     Some ((test_sender 70)\<lparr>buf := [], nextDeliveryTag := 1, transfers :=
       [\<lparr>Handle = 0, DeliveryID = Some 0, DeliveryTag = [0, 0, 0, 0, 0, 0, 0, 0],
         MessageFormat = Some 0, Settled = False, More = True, Payload = [0, 0x53, 0x75, 0xa0],
         Done = False\<rparr>,
        \<lparr>Handle = 0, DeliveryID = None, DeliveryTag = [], MessageFormat = None, Settled = False,
         More = False, Payload = [3, 1, 2, 3], Done = True\<rparr>]\<rparr>, True, None)"
    by (simp add: send_cases send_loop_step send_loop_stop Message_Marshal_def NewMessage_def
      test_sender_def test_link_def all_enqueued_def writeBinary_def buffer_defs typeCode_defs
      too_large_def first_transfer_def senderSettled_of_def needsDeliveryID_def be64_def
      SenderSettleModeUnsettled_def SenderSettleModeSettled_def SenderSettleModeMixed_def)
  have env: "\<forall>k. all_enqueued k \<noteq> LinkDone None"
    by (simp add: all_enqueued_def)
  have enc: "fst (Message_Marshal (NewMessage [1, 2, 3]) []) = [0, 0x53, 0x75, 0xa0, 3, 1, 2, 3]"
    by (simp add: Message_Marshal_def NewMessage_def writeBinary_def buffer_defs typeCode_defs)
  from send_transfers [OF run env] obtain frs where
    "transfers ((test_sender 70)\<lparr>buf := [], nextDeliveryTag := 1, transfers :=
       [\<lparr>Handle = 0, DeliveryID = Some 0, DeliveryTag = [0, 0, 0, 0, 0, 0, 0, 0],
         MessageFormat = Some 0, Settled = False, More = True, Payload = [0, 0x53, 0x75, 0xa0],
         Done = False\<rparr>,
        \<lparr>Handle = 0, DeliveryID = None, DeliveryTag = [], MessageFormat = None, Settled = False,
         More = False, Payload = [3, 1, 2, 3], Done = True\<rparr>]\<rparr>) = transfers (test_sender 70) @ frs"
    "concat (map Payload frs) = fst (Message_Marshal (NewMessage [1, 2, 3]) [])"
    by blast
  then show ?thesis using run enc by auto
qed

lemma Message_Marshal_512:
  "length p = 512 \<Longrightarrow>
   Message_Marshal (NewMessage p) [] =
     ([0x00, 0x53, 0x75, 0xb0, 0, 0, 2, 0] @ p, None)"
  by (simp add: Message_Marshal_def NewMessage_def writeBinary_def buffer_defs typeCode_defs
      MaxUint32_def be32_def)

lemma chunk_count_62:
  assumes "512 \<le> length b" "length b \<le> 558"
  shows "chunk_count 62 b = 9"
proof -
  have "b \<noteq> []" using assms(1) by auto
  moreover have "(length b + 62 - 1) div 62 = 9"
    using assms by (intro div_nat_eqI) simp_all
  ultimately show ?thesis by (simp add: chunk_count_def)
qed

text \<open>
  Claim C3, as amended. When the peer advertises max-frame-size 128, each transfer
  carries at most 62 bytes. A message whose payload is 512 bytes is encoded in at least
  512 bytes (520 when the payload is its one data section); whenever the encoding has
  between 512 and 558 bytes and every frame is taken by the channel, \<open>send\<close> emits
  exactly 9 transfer frames, with the delivery-id on the first only, \<open>More\<close> true on the
  first eight and false on the ninth.
\<close>

theorem send_nine_transfers:
  assumes "peerMaxFrameSize (s_l s0) = 128" and "length (msg_DeliveryTag msg) \<le> 32"
    and "Marshal msg [] = (b, None)" and "512 \<le> length b" and "length b \<le> 558"
    and "maxMessageSize (s_l s0) = 0 \<or> length b \<le> unat (maxMessageSize (s_l s0))"
    and "\<forall>k. env k = Enqueued"
  shows "\<exists>s' frs. send Marshal env s0 msg = Some (s', True, None) \<and>
      transfers s' = transfers s0 @ frs \<and> length frs = 9 \<and>
      (\<forall>i < 9. (DeliveryID (frs ! i) \<noteq> None) = (i = 0)) \<and>
      (\<forall>i < 9. More (frs ! i) = (i < 8))"
proof -
  have "\<not> too_large s0 b" using assms(6) by (auto simp: too_large_def)
  moreover have "66 < uint (peerMaxFrameSize (s_l s0))" using assms(1) by simp
  moreover have "b \<noteq> []" using assms(4) by auto
  ultimately obtain s' frs where r: "send Marshal env s0 msg = Some (s', True, None)"
      "transfers s' = transfers s0 @ frs"
      "chunked (nat (uint (peerMaxFrameSize (s_l s0)) - 66)) (first_transfer s0 msg b) b frs"
      "length frs = chunk_count (nat (uint (peerMaxFrameSize (s_l s0)) - 66)) b"
    using send_all_enqueued [where M = Marshal and msg = msg and b = b and ?s0.0 = s0
        and env = env] assms(2,3,7) by blast
  have n: "nat (uint (peerMaxFrameSize (s_l s0)) - 66) = 62" using assms(1) by simp
  have len: "length frs = 9" using r(4) chunk_count_62 [OF assms(4,5)] by (simp add: n)
  have "(DeliveryID (frs ! i) \<noteq> None) = (i = 0) \<and> More (frs ! i) = (i < 8)" if "i < 9" for i
    using r(3) that len by (auto simp: chunked_def first_transfer_def)
  then show ?thesis using r(1,2) len by blast
qed

theorem send_nine_transfers_witness:
  "\<exists>s' frs. send Message_Marshal all_enqueued (test_sender 128) (NewMessage (replicate 512 0)) =
        Some (s', True, None) \<and>
      transfers s' = transfers (test_sender 128) @ frs \<and> length frs = 9 \<and>
      (\<forall>i < 9. (DeliveryID (frs ! i) \<noteq> None) = (i = 0)) \<and>
      (\<forall>i < 9. More (frs ! i) = (i < 8))"
proof -
  have m: "Message_Marshal (NewMessage (replicate 512 0)) [] =
      ([0x00, 0x53, 0x75, 0xb0, 0, 0, 2, 0] @ replicate 512 0, None)"
    by (simp add: Message_Marshal_512)
  show ?thesis
    by (rule send_nine_transfers [where Marshal = Message_Marshal
          and msg = "NewMessage (replicate 512 0)"
          and b = "[0x00, 0x53, 0x75, 0xb0, 0, 0, 2, 0] @ replicate 512 0", OF _ _ m])
       (simp_all add: test_sender_def test_link_def NewMessage_def all_enqueued_def)
qed

text \<open>
  Claim C3 as stated fails: for the sender of the tests with peer max-frame-size 128
  and a message made from 512 payload bytes, \<open>send\<close> succeeds with 9 transfer frames,
  and the eighth still has \<open>More\<close> set.
\<close>

theorem send_eight_transfers_counterexample:
  "send Message_Marshal all_enqueued (test_sender 128) (NewMessage (replicate 512 0)) \<noteq> None \<and>
   snd (the (send Message_Marshal all_enqueued (test_sender 128) (NewMessage (replicate 512 0)))) =
     (True, None) \<and>
   length (transfers (fst (the (send Message_Marshal all_enqueued (test_sender 128)
     (NewMessage (replicate 512 0)))))) = 9 \<and>
   More (transfers (fst (the (send Message_Marshal all_enqueued (test_sender 128)
     (NewMessage (replicate 512 0))))) ! 7) \<and>
   \<not> More (transfers (fst (the (send Message_Marshal all_enqueued (test_sender 128)
     (NewMessage (replicate 512 0))))) ! 8)"
proof -
  define b where "b = [0x00, 0x53, 0x75, 0xb0, 0, 0, 2, 0] @ replicate 512 (0 :: byte)"
  have m: "Message_Marshal (NewMessage (replicate 512 0)) [] = (b, None)"
    by (simp add: Message_Marshal_512 b_def)
  have "length (msg_DeliveryTag (NewMessage (replicate 512 0))) \<le> 32"
    by (simp add: NewMessage_def)
  moreover have "\<not> too_large (test_sender 128) b"
    by (simp add: too_large_def test_sender_def test_link_def)
  moreover have "66 < uint (peerMaxFrameSize (s_l (test_sender 128)))"
    by (simp add: test_sender_def test_link_def)
  moreover have "b \<noteq> []" by (simp add: b_def)
  moreover have "\<forall>k. all_enqueued k = Enqueued" by (simp add: all_enqueued_def)
  ultimately obtain s' frs where r:
      "send Message_Marshal all_enqueued (test_sender 128) (NewMessage (replicate 512 0)) =
         Some (s', True, None)"
      "transfers s' = transfers (test_sender 128) @ frs"
      "chunked (nat (uint (peerMaxFrameSize (s_l (test_sender 128))) - 66))
         (first_transfer (test_sender 128) (NewMessage (replicate 512 0)) b) b frs"
      "length frs = chunk_count (nat (uint (peerMaxFrameSize (s_l (test_sender 128))) - 66)) b"
    using send_all_enqueued [where M = Message_Marshal and b = b and env = all_enqueued
        and msg = "NewMessage (replicate 512 0)" and ?s0.0 = "test_sender 128"] m by blast
  have n: "nat (uint (peerMaxFrameSize (s_l (test_sender 128))) - 66) = 62"
    by (simp add: test_sender_def test_link_def)
  have len: "length frs = 9"
    using r(4) chunk_count_62 [of b] by (simp add: n b_def)
  have "More (frs ! 7)" "\<not> More (frs ! 8)"
    using r(3) len by (simp_all add: chunked_def)
  moreover have "transfers s' = frs" using r(2) by (simp add: test_sender_def)
  ultimately show ?thesis using r(1) len by simp
qed

text \<open>
  Claim C4. When the sender's mux handles a flow frame that carries link-credit \<open>L\<close>
  and delivery-count \<open>D'\<close> while the link's delivery-count is \<open>D\<close>, the sender's
  available credit becomes \<open>L + D' - D\<close> in 32-bit arithmetic, that is modulo \<open>2^32\<close>.
\<close>

theorem flow_credit:
  "flow_LinkCredit f = Some L \<and> flow_DeliveryCount f = Some D' \<longrightarrow>
     availableCredit (fst (muxHandleFrame s0 (Flow f))) = L + D' - deliveryCount (s_l s0) \<and>
     uint (availableCredit (fst (muxHandleFrame s0 (Flow f)))) =
       (uint L + uint D' - uint (deliveryCount (s_l s0))) mod 2 ^ 32"
proof (intro impI)
  assume a: "flow_LinkCredit f = Some L \<and> flow_DeliveryCount f = Some D'"
  then have eq: "availableCredit (fst (muxHandleFrame s0 (Flow f))) =
      L + D' - deliveryCount (s_l s0)"
    by (simp add: muxHandleFrame_def Let_def)
  have "uint (L + D' - deliveryCount (s_l s0)) =
      (uint L + uint D' - uint (deliveryCount (s_l s0))) mod 2 ^ 32"
    by (simp add: uint_word_ariths mod_diff_left_eq)
  then show "availableCredit (fst (muxHandleFrame s0 (Flow f))) = L + D' - deliveryCount (s_l s0) \<and>
     uint (availableCredit (fst (muxHandleFrame s0 (Flow f)))) =
       (uint L + uint D' - uint (deliveryCount (s_l s0))) mod 2 ^ 32"
    using eq by simp
qed

theorem flow_credit_witness:
  "availableCredit (fst (muxHandleFrame ((test_sender 128)\<lparr>s_l := (test_link 128)\<lparr>deliveryCount := 5\<rparr>\<rparr>)
      (Flow \<lparr>flow_Handle = Some 0, flow_DeliveryCount = Some 3, flow_LinkCredit = Some 100,
             flow_Echo = False\<rparr>))) = 98 \<and>
   availableCredit (fst (muxHandleFrame ((test_sender 128)\<lparr>s_l := (test_link 128)\<lparr>deliveryCount := 5\<rparr>\<rparr>)
      (Flow \<lparr>flow_Handle = Some 0, flow_DeliveryCount = Some 1, flow_LinkCredit = Some 2,
             flow_Echo = True\<rparr>))) = 4294967294"
  using flow_credit [of "\<lparr>flow_Handle = Some 0, flow_DeliveryCount = Some 3, flow_LinkCredit = Some 100,
             flow_Echo = False\<rparr>" 100 3 "(test_sender 128)\<lparr>s_l := (test_link 128)\<lparr>deliveryCount := 5\<rparr>\<rparr>"]
    flow_credit [of "\<lparr>flow_Handle = Some 0, flow_DeliveryCount = Some 1, flow_LinkCredit = Some 2,
             flow_Echo = True\<rparr>" 2 1 "(test_sender 128)\<lparr>s_l := (test_link 128)\<lparr>deliveryCount := 5\<rparr>\<rparr>"]
  by (simp add: test_link_def)

text \<open>
  Claim C6. \<open>setSettleModes\<close> returns an error exactly when a settlement mode
  (receiver or sender) is set locally and differs from the value of the peer's attach
  response for that mode (an absent value counts as the default: first, mixed). When
  it returns no error, both modes of the link are the values of the response.
\<close>

theorem setSettleModes_error:
  "(snd (setSettleModes l0 resp) \<noteq> None) =
     ((receiverSettleMode l0 \<noteq> None \<and>
       the (receiverSettleMode l0) \<noteq> receiverSettleModeValue (att_ReceiverSettleMode resp)) \<or>
      (senderSettleMode l0 \<noteq> None \<and>
       the (senderSettleMode l0) \<noteq> senderSettleModeValue (att_SenderSettleMode resp))) \<and>
   (snd (setSettleModes l0 resp) = None \<longrightarrow>
      receiverSettleMode (fst (setSettleModes l0 resp)) =
        Some (receiverSettleModeValue (att_ReceiverSettleMode resp)) \<and>
      senderSettleMode (fst (setSettleModes l0 resp)) =
        Some (senderSettleModeValue (att_SenderSettleMode resp)))"
  by (auto simp: setSettleModes_def Let_def receiverSettleModeValue_def senderSettleModeValue_def
      split: option.splits)

theorem setSettleModes_error_witness:
  "setSettleModes ((test_link 128)\<lparr>senderSettleMode := Some SenderSettleModeSettled,
        receiverSettleMode := None\<rparr>) (SenderAttach SenderSettleModeUnsettled 0) =
     ((test_link 128)\<lparr>senderSettleMode := Some SenderSettleModeSettled,
        receiverSettleMode := Some ReceiverSettleModeFirst\<rparr>,
      Some (ErrSendSettleMode SenderSettleModeSettled SenderSettleModeUnsettled)) \<and>
   setSettleModes ((test_link 128)\<lparr>senderSettleMode := None, receiverSettleMode := None\<rparr>)
       (SenderAttach SenderSettleModeUnsettled 0) =
     (test_link 128, None)"
  using setSettleModes_error [of "(test_link 128)\<lparr>senderSettleMode := Some SenderSettleModeSettled,
        receiverSettleMode := None\<rparr>" "SenderAttach SenderSettleModeUnsettled 0"]
    setSettleModes_error [of "(test_link 128)\<lparr>senderSettleMode := None, receiverSettleMode := None\<rparr>"
       "SenderAttach SenderSettleModeUnsettled 0"]
  by (simp add: setSettleModes_def Let_def receiverSettleModeValue_def senderSettleModeValue_def
      SenderAttach_def test_link_def SenderSettleModeSettled_def SenderSettleModeUnsettled_def)

text \<open>
  Claim C10. When the link's \<open>done\<close> channel is closed as \<open>Send\<close> is called, \<open>Send\<close>
  returns the link's \<open>doneErr\<close> at once: the sender is as before, so nothing was
  marshaled into its buffer and no transfer frame was put on its channel.
\<close>

theorem Send_on_done_link:
  "l_done (s_l s0) \<longrightarrow> Send Marshal env confirm s0 msg = Some (s0, doneErr (s_l s0))"
  by (simp add: Send_def)

theorem Send_on_done_link_witness:
  "l_done (s_l ((test_sender 128)\<lparr>s_l := (test_link 128)\<lparr>l_done := True,
       doneErr := Some (LinkError None)\<rparr>\<rparr>)) \<and>
   Send Message_Marshal all_enqueued (StateArrived StateAccepted)
     ((test_sender 128)\<lparr>s_l := (test_link 128)\<lparr>l_done := True,
       doneErr := Some (LinkError None)\<rparr>\<rparr>) (NewMessage [1, 2, 3]) =
   Some ((test_sender 128)\<lparr>s_l := (test_link 128)\<lparr>l_done := True,
       doneErr := Some (LinkError None)\<rparr>\<rparr>, Some (LinkError None))"
  using Send_on_done_link [of "(test_sender 128)\<lparr>s_l := (test_link 128)\<lparr>l_done := True,
       doneErr := Some (LinkError None)\<rparr>\<rparr>" Message_Marshal all_enqueued
       "StateArrived StateAccepted" "NewMessage [1, 2, 3]"]
  by simp

lemma setSettleModes_maxMessageSize:
  "maxMessageSize (fst (setSettleModes l0 resp)) = maxMessageSize l0"
  by (simp add: setSettleModes_def Let_def)

lemma attach_success:
  assumes "attach allocateHandle beforeAttach afterAttach muxClose rx l0 = (l', None)"
  shows "\<exists>h resp. allocateHandle = Inr h \<and> rx 0 = WaitFrame (Attach resp) \<and>
     (att_Source resp \<noteq> None \<or> att_Target resp \<noteq> None) \<and>
     (l', None) = setSettleModes
       (afterAttach
          ((l0\<lparr>handle := h,
               session_tx := session_tx l0 @
                 [Attach (beforeAttach
                    \<lparr>att_Handle = h, att_RoleReceiver = False,
                     att_ReceiverSettleMode = receiverSettleMode l0,
                     att_SenderSettleMode = senderSettleMode l0,
                     att_MaxMessageSize = maxMessageSize l0,
                     att_Source = source l0, att_Target = target l0,
                     att_TargetDynamic = False\<rparr>)]\<rparr>)
             \<lparr>maxMessageSize :=
                (if maxMessageSize l0 = 0 \<or> att_MaxMessageSize resp < maxMessageSize l0
                 then att_MaxMessageSize resp else maxMessageSize l0)\<rparr>) resp) resp"
proof -
  obtain h where h: "allocateHandle = Inr h"
    using assms by (cases allocateHandle) (simp_all add: attach_def)
  define l2 where "l2 = l0\<lparr>handle := h,
               session_tx := session_tx l0 @
                 [Attach (beforeAttach
                    \<lparr>att_Handle = h, att_RoleReceiver = False,
                     att_ReceiverSettleMode = receiverSettleMode l0,
                     att_SenderSettleMode = senderSettleMode l0,
                     att_MaxMessageSize = maxMessageSize l0,
                     att_Source = source l0, att_Target = target l0,
                     att_TargetDynamic = False\<rparr>)]\<rparr>"
  have unfold: "attach allocateHandle beforeAttach afterAttach muxClose rx l0 =
    (case rx 0 of
       WaitCtxErr err \<Rightarrow> (l2, Some err)
     | WaitErr err \<Rightarrow> (l2, Some err)
     | WaitFrame (Attach resp) \<Rightarrow>
        (if att_Source resp = None \<and> att_Target resp = None then
           (case rx 1 of
              WaitCtxErr err \<Rightarrow> (l2, Some err)
            | WaitErr err \<Rightarrow> (l2, Some err)
            | WaitFrame (Detach detach) \<Rightarrow>
               (let l3 = l2\<lparr>session_tx := session_tx l2 @
                          [Detach \<lparr>det_Handle = handle l2, det_Closed = True,
                                   det_Error = None\<rparr>]\<rparr>
                in if det_Error detach = None then (l3, Some ErrDetachNoError)
                   else (l3, Some (RemoteError (det_Error detach))))
            | WaitFrame _ \<Rightarrow> (l2, Some ErrUnexpectedFrame))
         else
           let l3 = (if maxMessageSize l2 = 0 \<or>
                        att_MaxMessageSize resp < maxMessageSize l2
                     then l2\<lparr>maxMessageSize := att_MaxMessageSize resp\<rparr> else l2);
               l4 = afterAttach l3 resp
           in (case setSettleModes l4 resp of
                 (l5, Some err) \<Rightarrow> (muxClose l5, Some err)
               | (l5, None) \<Rightarrow> (l5, None)))
     | WaitFrame _ \<Rightarrow> (l2, Some ErrUnexpectedAttachResponse))"
    unfolding attach_def h l2_def
    by (simp add: Let_def cong: wait_result.case_cong FrameBody.case_cong if_cong)
  obtain fr where fr: "rx 0 = WaitFrame fr"
    using assms unfolding unfold by (cases "rx 0") simp_all
  obtain resp where resp: "fr = Attach resp"
    using assms unfolding unfold fr by (cases fr) simp_all
  have refused: "(case rx 1 of
              WaitCtxErr err \<Rightarrow> (l2, Some err)
            | WaitErr err \<Rightarrow> (l2, Some err)
            | WaitFrame (Detach detach) \<Rightarrow>
               (let l3 = l2\<lparr>session_tx := session_tx l2 @
                          [Detach \<lparr>det_Handle = handle l2, det_Closed = True,
                                   det_Error = None\<rparr>]\<rparr>
                in if det_Error detach = None then (l3, Some ErrDetachNoError)
                   else (l3, Some (RemoteError (det_Error detach))))
            | WaitFrame _ \<Rightarrow> (l2, Some ErrUnexpectedFrame)) \<noteq> (l', None)"
    by (simp add: Let_def split: wait_result.splits FrameBody.splits)
  have terminus: "att_Source resp \<noteq> None \<or> att_Target resp \<noteq> None"
    using assms refused unfolding unfold fr resp by (auto split: if_splits)
  define l4 where "l4 = afterAttach
      (l2\<lparr>maxMessageSize :=
                (if maxMessageSize l0 = 0 \<or> att_MaxMessageSize resp < maxMessageSize l0
                 then att_MaxMessageSize resp else maxMessageSize l0)\<rparr>) resp"
  have "(case setSettleModes l4 resp of
                 (l5, Some err) \<Rightarrow> (muxClose l5, Some err)
               | (l5, None) \<Rightarrow> (l5, None)) = (l', None)"
    using assms terminus unfolding unfold fr resp l4_def
    by (auto simp: Let_def l2_def split: if_splits)
  then have "(l', None) = setSettleModes l4 resp"
    by (cases "setSettleModes l4 resp") (auto split: option.splits)
  then show ?thesis
    using h fr resp terminus unfolding l4_def l2_def by blast
qed

text \<open>
  Claim C5. After a successful attach (whose link-specific callback leaves the size
  alone, as the sender's does) the link's max-message-size is the peer's value when the
  local value is 0, and the smaller of the local and the peer's value otherwise. For a
  message with an admissible delivery tag that marshals to the bytes \<open>b\<close>: when the
  link's max-message-size is not 0 and \<open>b\<close> is longer, \<open>send\<close> fails with the
  message-too-large error, with nothing put on the channel; otherwise every error
  \<open>send\<close> returns is one that a \<open>select\<close> took from the link or the context.
\<close>

theorem max_message_size:
  "(attach allocateHandle beforeAttach afterAttach muxClose rx l0 = (l', None) \<and>
    (\<forall>l r. maxMessageSize (afterAttach l r) = maxMessageSize l) \<longrightarrow>
      (\<exists>resp. rx 0 = WaitFrame (Attach resp) \<and>
         maxMessageSize l' =
           (if maxMessageSize l0 = 0 then att_MaxMessageSize resp
            else min (maxMessageSize l0) (att_MaxMessageSize resp)))) \<and>
   (length (msg_DeliveryTag msg) \<le> 32 \<and> Marshal msg [] = (b, None) \<longrightarrow>
      (maxMessageSize (s_l s0) \<noteq> 0 \<and> unat (maxMessageSize (s_l s0)) < length b \<longrightarrow>
         send Marshal env s0 msg =
           Some (s0\<lparr>buf := b\<rparr>, False, Some (ErrMessageTooLarge (maxMessageSize (s_l s0))))) \<and>
      (\<not> (maxMessageSize (s_l s0) \<noteq> 0 \<and> unat (maxMessageSize (s_l s0)) < length b) \<longrightarrow>
         (\<forall>s' ch e. send Marshal env s0 msg = Some (s', ch, Some e) \<longrightarrow>
            (\<exists>k. env k = LinkDone (Some e) \<or> env k = CtxDone e))))"
proof (intro conjI impI allI)
  assume a: "attach allocateHandle beforeAttach afterAttach muxClose rx l0 = (l', None) \<and>
    (\<forall>l r. maxMessageSize (afterAttach l r) = maxMessageSize l)"
  then obtain h resp where r: "rx 0 = WaitFrame (Attach resp)"
    and l': "(l', None) = setSettleModes
       (afterAttach
          ((l0\<lparr>handle := h,
               session_tx := session_tx l0 @
                 [Attach (beforeAttach
                    \<lparr>att_Handle = h, att_RoleReceiver = False,
                     att_ReceiverSettleMode = receiverSettleMode l0,
                     att_SenderSettleMode = senderSettleMode l0,
                     att_MaxMessageSize = maxMessageSize l0,
                     att_Source = source l0, att_Target = target l0,
                     att_TargetDynamic = False\<rparr>)]\<rparr>)
             \<lparr>maxMessageSize :=
                (if maxMessageSize l0 = 0 \<or> att_MaxMessageSize resp < maxMessageSize l0
                 then att_MaxMessageSize resp else maxMessageSize l0)\<rparr>) resp) resp"
    using attach_success [of allocateHandle beforeAttach afterAttach muxClose rx l0 l'] by blast
  have "maxMessageSize l' =
      (if maxMessageSize l0 = 0 \<or> att_MaxMessageSize resp < maxMessageSize l0
       then att_MaxMessageSize resp else maxMessageSize l0)"
    using a arg_cong [OF l', of "\<lambda>p. maxMessageSize (fst p)"]
    by (simp add: setSettleModes_maxMessageSize)
  then have "maxMessageSize l' =
           (if maxMessageSize l0 = 0 then att_MaxMessageSize resp
            else min (maxMessageSize l0) (att_MaxMessageSize resp))"
    by (auto simp: min_def)
  then show "\<exists>resp. rx 0 = WaitFrame (Attach resp) \<and>
         maxMessageSize l' =
           (if maxMessageSize l0 = 0 then att_MaxMessageSize resp
            else min (maxMessageSize l0) (att_MaxMessageSize resp))"
    using r by blast
next
  assume m: "length (msg_DeliveryTag msg) \<le> 32 \<and> Marshal msg [] = (b, None)"
  {
    assume "maxMessageSize (s_l s0) \<noteq> 0 \<and> unat (maxMessageSize (s_l s0)) < length b"
    then show "send Marshal env s0 msg =
           Some (s0\<lparr>buf := b\<rparr>, False, Some (ErrMessageTooLarge (maxMessageSize (s_l s0))))"
      using m by (simp add: send_cases too_large_def)
  }
  {
    fix s' ch e
    assume small: "\<not> (maxMessageSize (s_l s0) \<noteq> 0 \<and> unat (maxMessageSize (s_l s0)) < length b)"
      and res: "send Marshal env s0 msg = Some (s', ch, Some e)"
    have loop: "send_loop (uint (peerMaxFrameSize (s_l s0)) - 66) (senderSettled_of s0 msg) env 0
          (s0\<lparr>buf := b,
              nextDeliveryTag := (if msg_DeliveryTag msg = [] then nextDeliveryTag s0 + 1
                                  else nextDeliveryTag s0)\<rparr>)
          (first_transfer s0 msg b) = Some (s', ch, Some e)"
    proof -
      have "\<not> too_large s0 b" using small by (simp add: too_large_def)
      then show ?thesis using m res by (simp add: send_cases)
    qed
    have "More (first_transfer s0 msg b)"
      using loop by (cases "More (first_transfer s0 msg b)") (simp_all add: send_loop_stop)
    from send_loop_result [OF loop this]
    show "\<exists>k. env k = LinkDone (Some e) \<or> env k = CtxDone e" by simp
  }
qed

lemma attach_test_link:
  "attach (Inr 0) (Sender_beforeAttach (test_link 128)) Sender_afterAttach id
     (rx_attach (SenderAttach SenderSettleModeUnsettled 16)) ((test_link 128)\<lparr>maxMessageSize := m\<rparr>) =
   ((test_link 128)
      \<lparr>maxMessageSize := (if m = 0 \<or> 16 < m then 16 else m),
       session_tx := [Attach (Sender_beforeAttach (test_link 128)
          \<lparr>att_Handle = 0, att_RoleReceiver = False,
           att_ReceiverSettleMode = Some ReceiverSettleModeFirst,
           att_SenderSettleMode = Some SenderSettleModeUnsettled,
           att_MaxMessageSize = m, att_Source = None, att_Target = Some ''test'',
           att_TargetDynamic = False\<rparr>)]\<rparr>, None)"
  by (simp add: attach_def rx_attach_def SenderAttach_def Let_def test_link_def
      Sender_afterAttach_def setSettleModes_def receiverSettleModeValue_def
      senderSettleModeValue_def)

theorem max_message_size_witness:
  "snd (attach (Inr 0) (Sender_beforeAttach (test_link 128)) Sender_afterAttach id
     (rx_attach (SenderAttach SenderSettleModeUnsettled 16)) (test_link 128)) = None \<and>
   maxMessageSize (fst (attach (Inr 0) (Sender_beforeAttach (test_link 128)) Sender_afterAttach id
     (rx_attach (SenderAttach SenderSettleModeUnsettled 16)) (test_link 128))) = 16 \<and>
   maxMessageSize (fst (attach (Inr 0) (Sender_beforeAttach (test_link 128)) Sender_afterAttach id
     (rx_attach (SenderAttach SenderSettleModeUnsettled 16))
     ((test_link 128)\<lparr>maxMessageSize := 100\<rparr>))) = 16 \<and>
   maxMessageSize (fst (attach (Inr 0) (Sender_beforeAttach (test_link 128)) Sender_afterAttach id
     (rx_attach (SenderAttach SenderSettleModeUnsettled 16))
     ((test_link 128)\<lparr>maxMessageSize := 7\<rparr>))) = 7 \<and>
   send Message_Marshal all_enqueued
     ((test_sender 128)\<lparr>s_l := (test_link 128)\<lparr>maxMessageSize := 16\<rparr>\<rparr>)
     (NewMessage (replicate 27 0x74)) =
   Some ((test_sender 128)\<lparr>s_l := (test_link 128)\<lparr>maxMessageSize := 16\<rparr>,
           buf := [0x00, 0x53, 0x75, 0xa0, 27] @ replicate 27 0x74\<rparr>, False,
         Some (ErrMessageTooLarge 16)) \<and>
   send Message_Marshal link_lost
     ((test_sender 128)\<lparr>s_l := (test_link 128)\<lparr>maxMessageSize := 16\<rparr>\<rparr>)
     (NewMessage [1, 2, 3]) =
   Some ((test_sender 128)\<lparr>s_l := (test_link 128)\<lparr>maxMessageSize := 16\<rparr>,
           buf := [], nextDeliveryTag := 1\<rparr>, False, Some (LinkError None)) \<and>
   (\<exists>k. link_lost k = LinkDone (Some (LinkError None)) \<or> link_lost k = CtxDone (LinkError None))"
proof -
  have after: "\<forall>l r. maxMessageSize (Sender_afterAttach l r) = maxMessageSize l"
    by (simp add: Sender_afterAttach_def Let_def)
  have att: "attach (Inr 0) (Sender_beforeAttach (test_link 128)) Sender_afterAttach id
     (rx_attach (SenderAttach SenderSettleModeUnsettled 16)) ((test_link 128)\<lparr>maxMessageSize := m\<rparr>) =
     (fst (attach (Inr 0) (Sender_beforeAttach (test_link 128)) Sender_afterAttach id
        (rx_attach (SenderAttach SenderSettleModeUnsettled 16))
        ((test_link 128)\<lparr>maxMessageSize := m\<rparr>)), None)" for m
    by (simp add: attach_test_link)
  have resolved: "maxMessageSize (fst (attach (Inr 0) (Sender_beforeAttach (test_link 128))
        Sender_afterAttach id (rx_attach (SenderAttach SenderSettleModeUnsettled 16))
        ((test_link 128)\<lparr>maxMessageSize := m\<rparr>))) = (if m = 0 then 16 else min m 16)" for m
    using max_message_size [THEN conjunct1, rule_format, OF conjI [OF att [of m] after]]
    by (auto simp: rx_attach_def SenderAttach_def)
  have m: "Message_Marshal (NewMessage (replicate 27 0x74)) [] =
      ([0x00, 0x53, 0x75, 0xa0, 27] @ replicate 27 0x74, None)"
    by (simp add: Message_Marshal_def NewMessage_def writeBinary_def buffer_defs typeCode_defs)
  have big: "send Message_Marshal all_enqueued
     ((test_sender 128)\<lparr>s_l := (test_link 128)\<lparr>maxMessageSize := 16\<rparr>\<rparr>)
     (NewMessage (replicate 27 0x74)) =
   Some ((test_sender 128)\<lparr>s_l := (test_link 128)\<lparr>maxMessageSize := 16\<rparr>,
           buf := [0x00, 0x53, 0x75, 0xa0, 27] @ replicate 27 0x74\<rparr>, False,
         Some (ErrMessageTooLarge 16))"
    using max_message_size [THEN conjunct2, rule_format, THEN conjunct1, rule_format,
        of "NewMessage (replicate 27 0x74)" Message_Marshal
        "[0x00, 0x53, 0x75, 0xa0, 27] @ replicate 27 0x74"
        "(test_sender 128)\<lparr>s_l := (test_link 128)\<lparr>maxMessageSize := 16\<rparr>\<rparr>" all_enqueued] m
    by (simp add: NewMessage_def)
  have m3: "Message_Marshal (NewMessage [1, 2, 3]) [] = ([0x00, 0x53, 0x75, 0xa0, 3, 1, 2, 3], None)"
    by (simp add: Message_Marshal_def NewMessage_def writeBinary_def buffer_defs typeCode_defs)
  have lost: "send Message_Marshal link_lost
     ((test_sender 128)\<lparr>s_l := (test_link 128)\<lparr>maxMessageSize := 16\<rparr>\<rparr>)
     (NewMessage [1, 2, 3]) =
   Some ((test_sender 128)\<lparr>s_l := (test_link 128)\<lparr>maxMessageSize := 16\<rparr>,
           buf := [], nextDeliveryTag := 1\<rparr>, False, Some (LinkError None))"
    by (simp add: send_cases send_loop_step m3 too_large_def first_transfer_def link_lost_def
        test_sender_def test_link_def) (simp add: NewMessage_def)
  have "\<exists>k. link_lost k = LinkDone (Some (LinkError None)) \<or> link_lost k = CtxDone (LinkError None)"
    using max_message_size [THEN conjunct2, rule_format, THEN conjunct2, rule_format,
        of "NewMessage [1, 2, 3]" Message_Marshal "[0x00, 0x53, 0x75, 0xa0, 3, 1, 2, 3]"
        "(test_sender 128)\<lparr>s_l := (test_link 128)\<lparr>maxMessageSize := 16\<rparr>\<rparr>" link_lost,
        OF _ _ lost] m3
    by (simp add: NewMessage_def)
  moreover have tl: "(test_link 128)\<lparr>maxMessageSize := 0\<rparr> = test_link 128"
    by (simp add: test_link_def)
  moreover have "snd (attach (Inr 0) (Sender_beforeAttach (test_link 128)) Sender_afterAttach id
     (rx_attach (SenderAttach SenderSettleModeUnsettled 16)) (test_link 128)) = None"
    using att [of 0] unfolding tl by (metis snd_conv)
  moreover have "maxMessageSize (fst (attach (Inr 0) (Sender_beforeAttach (test_link 128))
     Sender_afterAttach id (rx_attach (SenderAttach SenderSettleModeUnsettled 16))
     (test_link 128))) = 16"
    using resolved [of 0] unfolding tl by simp
  moreover have "maxMessageSize (fst (attach (Inr 0) (Sender_beforeAttach (test_link 128))
     Sender_afterAttach id (rx_attach (SenderAttach SenderSettleModeUnsettled 16))
     ((test_link 128)\<lparr>maxMessageSize := 100\<rparr>))) = 16"
    using resolved [of 100] by simp
  moreover have "maxMessageSize (fst (attach (Inr 0) (Sender_beforeAttach (test_link 128))
     Sender_afterAttach id (rx_attach (SenderAttach SenderSettleModeUnsettled 16))
     ((test_link 128)\<lparr>maxMessageSize := 7\<rparr>))) = 7"
    using resolved [of 7] by simp
  ultimately show ?thesis
    using big lost by blast
qed

text \<open>
  Claim C9. With a delivery tag longer than 32 bytes \<open>send\<close> returns the error and
  leaves the sender as it was: nothing was marshaled, no transfer was put on the
  channel. With no delivery tag, the first transfer that \<open>send\<close> emits carries the
  sender's counter \<open>nextDeliveryTag\<close> as 8 bytes, big-endian, and later transfers carry
  no tag; the counter is one higher afterwards when \<open>send\<close> came to assign the tag
  (the message marshaled and was not too large) and unchanged otherwise. Below
  \<open>2^64 - 1\<close> the counter's value grows by exactly one, so the tags increase.
\<close>

theorem delivery_tag:
  "(length (msg_DeliveryTag msg) > 32 \<longrightarrow>
      send Marshal env s0 msg =
        Some (s0, False, Some (ErrDeliveryTagTooLong (length (msg_DeliveryTag msg))))) \<and>
   (msg_DeliveryTag msg = [] \<and> send Marshal env s0 msg = Some (s', ch, err) \<longrightarrow>
      (\<exists>frs. transfers s' = transfers s0 @ frs \<and>
         (\<forall>i < length frs.
            DeliveryTag (frs ! i) = (if i = 0 then be64 (nextDeliveryTag s0) else []))) \<and>
      nextDeliveryTag s' =
        (if snd (Marshal msg []) = None \<and> \<not> too_large s0 (fst (Marshal msg []))
         then nextDeliveryTag s0 + 1 else nextDeliveryTag s0)) \<and>
   length (be64 (nextDeliveryTag s0)) = 8 \<and>
   (nextDeliveryTag s0 \<noteq> - 1 \<longrightarrow>
      unat (nextDeliveryTag s0 + 1) = unat (nextDeliveryTag s0) + 1)"
proof (intro conjI impI)
  assume "length (msg_DeliveryTag msg) > 32"
  then show "send Marshal env s0 msg =
        Some (s0, False, Some (ErrDeliveryTagTooLong (length (msg_DeliveryTag msg))))"
    by (simp add: send_cases)
next
  show "length (be64 (nextDeliveryTag s0)) = 8" by (simp add: be64_def)
next
  assume "nextDeliveryTag s0 \<noteq> - 1"
  then have "1 + nextDeliveryTag s0 \<noteq> 0"
    by (metis add.commute max_word_wrap)
  then show "unat (nextDeliveryTag s0 + 1) = unat (nextDeliveryTag s0) + 1"
    using unatSuc [of "nextDeliveryTag s0"] by (simp add: add.commute)
next
  assume a: "msg_DeliveryTag msg = [] \<and> send Marshal env s0 msg = Some (s', ch, err)"
  define b where "b = fst (Marshal msg [])"
  define s2 where "s2 = s0\<lparr>buf := b, nextDeliveryTag := nextDeliveryTag s0 + 1\<rparr>"
  have both: "(\<exists>frs. transfers s' = transfers s0 @ frs \<and>
         (\<forall>i < length frs.
            DeliveryTag (frs ! i) = (if i = 0 then be64 (nextDeliveryTag s0) else []))) \<and>
      nextDeliveryTag s' =
        (if snd (Marshal msg []) = None \<and> \<not> too_large s0 b
         then nextDeliveryTag s0 + 1 else nextDeliveryTag s0)"
  proof (cases "snd (Marshal msg []) = None \<and> \<not> too_large s0 b")
    case False
    then have "s' = s0\<lparr>buf := b\<rparr>"
      using a by (auto simp: send_cases b_def split: if_splits)
    then show ?thesis using False by simp
  next
    case True
    then have ok: "snd (Marshal msg []) = None" "\<not> too_large s0 (fst (Marshal msg []))"
      by (simp_all add: b_def)
    have t: "msg_DeliveryTag msg = []" and r: "send Marshal env s0 msg = Some (s', ch, err)"
      using a by simp_all
    have loop: "send_loop (uint (peerMaxFrameSize (s_l s0)) - 66) (senderSettled_of s0 msg)
        env 0 s2 (first_transfer s0 msg b) = Some (s', ch, err)"
      using r unfolding send_cases b_def s2_def by (simp add: t ok)
    show ?thesis
    proof (cases "More (first_transfer s0 msg b)")
      case False
      then have "s' = s2" using loop by (simp add: send_loop_stop)
      then show ?thesis using True by (simp add: s2_def)
    next
      case more: True
      have ft: "DeliveryTag (first_transfer s0 msg b) = be64 (nextDeliveryTag s0)"
        using t by (simp add: first_transfer_def)
      from send_loop_result [OF loop more, unfolded ft]
      show ?thesis using True by (simp add: s2_def)
    qed
  qed
  then show "\<exists>frs. transfers s' = transfers s0 @ frs \<and>
         (\<forall>i < length frs.
            DeliveryTag (frs ! i) = (if i = 0 then be64 (nextDeliveryTag s0) else []))"
    by blast
  show "nextDeliveryTag s' =
        (if snd (Marshal msg []) = None \<and> \<not> too_large s0 (fst (Marshal msg []))
         then nextDeliveryTag s0 + 1 else nextDeliveryTag s0)"
    using both by (simp add: b_def)
qed

theorem delivery_tag_witness:
  "send Message_Marshal all_enqueued (test_sender 128)
     ((NewMessage [1, 2, 3])\<lparr>msg_DeliveryTag := replicate 33 0\<rparr>) =
     Some (test_sender 128, False, Some (ErrDeliveryTagTooLong 33)) \<and>
   send Message_Marshal all_enqueued ((test_sender 70)\<lparr>nextDeliveryTag := 41\<rparr>)
     (NewMessage [1, 2, 3]) =
     Some ((test_sender 70)\<lparr>buf := [], nextDeliveryTag := 42, transfers :=
       [\<lparr>Handle = 0, DeliveryID = Some 0, DeliveryTag = [0, 0, 0, 0, 0, 0, 0, 41],
         MessageFormat = Some 0, Settled = False, More = True, Payload = [0, 0x53, 0x75, 0xa0],
         Done = False\<rparr>,
        \<lparr>Handle = 0, DeliveryID = None, DeliveryTag = [], MessageFormat = None, Settled = False,
         More = False, Payload = [3, 1, 2, 3], Done = True\<rparr>]\<rparr>, True, None) \<and>
   be64 41 = [0, 0, 0, 0, 0, 0, 0, 41] \<and> unat (41 + 1 :: 64 word) = 42"
proof -
  have run: "send Message_Marshal all_enqueued ((test_sender 70)\<lparr>nextDeliveryTag := 41\<rparr>)
     (NewMessage [1, 2, 3]) =
     Some ((test_sender 70)\<lparr>buf := [], nextDeliveryTag := 42, transfers :=
       [\<lparr>Handle = 0, DeliveryID = Some 0, DeliveryTag = [0, 0, 0, 0, 0, 0, 0, 41],
         MessageFormat = Some 0, Settled = False, More = True, Payload = [0, 0x53, 0x75, 0xa0],
         Done = False\<rparr>,
        \<lparr>Handle = 0, DeliveryID = None, DeliveryTag = [], MessageFormat = None, Settled = False,
         More = False, Payload = [3, 1, 2, 3], Done = True\<rparr>]\<rparr>, True, None)"
    by (simp add: send_cases send_loop_step send_loop_stop Message_Marshal_def NewMessage_def
      test_sender_def test_link_def all_enqueued_def writeBinary_def buffer_defs typeCode_defs
      too_large_def first_transfer_def senderSettled_of_def needsDeliveryID_def be64_def
      SenderSettleModeUnsettled_def SenderSettleModeSettled_def SenderSettleModeMixed_def)
  show ?thesis
    using delivery_tag [of "(NewMessage [1, 2, 3])\<lparr>msg_DeliveryTag := replicate 33 0\<rparr>"
        Message_Marshal all_enqueued "test_sender 128"]
      delivery_tag [of "NewMessage [1, 2, 3]" Message_Marshal all_enqueued
        "(test_sender 70)\<lparr>nextDeliveryTag := 41\<rparr>"]
      run
    by (simp add: NewMessage_def be64_def)
qed

end
